theory Spec2Isabelle
  imports Main
begin

section \<open>The cluster operators of ilastik (\<^verbatim>\<open>ilastik/clusterOps.py\<close>)\<close>

text \<open>
  The module holds a worker operator (\<^verbatim>\<open>OpTaskWorker\<close>), which computes one region of a
  volume and signals completion through the file system, and a master operator
  (\<^verbatim>\<open>OpClusterize\<close>), which divides the volume into regions, spawns one worker per region,
  polls for the workers' status files and copies their results into one output file.

  Python exceptions are values of the type \<open>error\<close>; a function that may raise returns
  \<open>error + 'a\<close> with \<open>Inl\<close> for the exception.
\<close>

datatype error =
  ZeroDivisionError | ValueError | AssertionError | RuntimeError | IOError | KeyError |
  IndexError | TypeError | ShutilError

subsection \<open>The partitioner: \<^verbatim>\<open>OpClusterize._getRoiList\<close>\<close>

text \<open>
  A region of interest is the pair \<^verbatim>\<open>(start, stop)\<close> of two coordinate vectors; the tagged
  shape is the ordered dictionary of axis keys and extents that
  \<^verbatim>\<open>Input.meta.getTaggedShape()\<close> returns, here the list of its items. The extents of an
  array shape are natural numbers; \<^verbatim>\<open>Input.meta.shape\<close> is the tuple of the extents in the
  same order. Coordinates are Python integers.
\<close>

type_synonym roi = "int list \<times> int list"

type_synonym tagged_shape = "(string \<times> nat) list"

text \<open>\<^verbatim>\<open>key in 'xyz'\<close> on Python strings is the substring test.\<close>

definition str_in :: "string \<Rightarrow> string \<Rightarrow> bool" where
  "str_in key s = list_ex (\<lambda>i. take (length key) (drop i s) = key) [0..<Suc (length s)]"

text \<open>\<^verbatim>\<open>spaceDims = filter(lambda (key, dim): key in 'xyz' and dim > 1, taggedShape.items())\<close>\<close>

definition spaceDims :: "tagged_shape \<Rightarrow> tagged_shape" where
  "spaceDims taggedShape = filter (\<lambda>(key, dim). str_in key ''xyz'' \<and> dim > 1) taggedShape"

text \<open>
  \<^verbatim>\<open>int(round(math.pow(numJobs, 1.0/len(spaceDims))))\<close>. The division \<^verbatim>\<open>1.0/0\<close> raises
  ZeroDivisionError; \<^verbatim>\<open>math.pow(x, 1.0)\<close> is \<^verbatim>\<open>x\<close>; \<^verbatim>\<open>math.pow\<close> of a negative base and
  a non-integral exponent raises ValueError. For a base \<open>J \<ge> 0\<close> the value is the integer
  nearest to the real \<open>S\<close>-th root of \<open>J\<close>, the \<open>k\<close> with
  \<open>(2k - 1)^S \<le> 2^S J < (2k + 1)^S\<close>; \<open>nearest_root\<close> computes it in integers (the root is
  never half-way between two integers, since \<open>(2k + 1)^S\<close> is odd). This is the value of
  the floating-point expression wherever the double-precision root is not within rounding
  error of a half-integer; the properties proved of the partitioner below are proved for
  every value of \<open>k\<close> by the lemmas they rest on.
\<close>

definition nearest_root :: "int \<Rightarrow> nat \<Rightarrow> int" where
  "nearest_root J S =
     int (length (takeWhile (\<lambda>k. (2 * int k + 1) ^ S \<le> 2 ^ S * J) [0..<Suc (nat J)]))"

definition numJobsPerSpaceDim :: "int \<Rightarrow> nat \<Rightarrow> error + int" where
  "numJobsPerSpaceDim numJobs S =
     (if S = 0 then Inl ZeroDivisionError
      else if S = 1 then Inr numJobs
      else if numJobs < 0 then Inl ValueError
      else Inr (nearest_root numJobs S))"

text \<open>
  The loop that builds \<^verbatim>\<open>roiShape\<close>: the extent of a space dimension is divided by the
  number of jobs per dimension (Python 2 integer division: the floor, ZeroDivisionError
  for a zero divisor), every other extent is kept. \<open>keys\<close> is the list
  \<^verbatim>\<open>[key for key, value in spaceDims]\<close>.
\<close>

fun roiShape_loop :: "int \<Rightarrow> string list \<Rightarrow> tagged_shape \<Rightarrow> error + int list" where
  "roiShape_loop k keys [] = Inr []"
| "roiShape_loop k keys ((key, dim) # rest) =
     (if key \<in> set keys then
        (if k = 0 then Inl ZeroDivisionError
         else (case roiShape_loop k keys rest of
                 Inl e \<Rightarrow> Inl e
               | Inr roiShape \<Rightarrow> Inr (int dim div k # roiShape)))
      else (case roiShape_loop k keys rest of
              Inl e \<Rightarrow> Inl e
            | Inr roiShape \<Rightarrow> Inr (int dim # roiShape)))"

text \<open>Python 2's \<^verbatim>\<open>range(0, stop, step)\<close>: ValueError for a zero step.\<close>

definition py_range :: "int \<Rightarrow> int \<Rightarrow> error + int list" where
  "py_range stop step =
     (if step = 0 then Inl ValueError
      else if step > 0 then
        Inr (map (\<lambda>i. int i * step) [0..<nat ((stop + step - 1) div step)])
      else Inr (map (\<lambda>i. int i * step) [0..<nat ((stop + step + 1) div step)]))"

text \<open>\<^verbatim>\<open>[ range(0, stop, step) for stop,step in zip(inputShape, roiShape) ]\<close>\<close>

fun ranges :: "(int \<times> int) list \<Rightarrow> error + int list list" where
  "ranges [] = Inr []"
| "ranges ((stop, step) # rest) =
     (case py_range stop step of
        Inl e \<Rightarrow> Inl e
      | Inr r \<Rightarrow> (case ranges rest of Inl e \<Rightarrow> Inl e | Inr rs \<Rightarrow> Inr (r # rs)))"

text \<open>
  The body of the loop over \<^verbatim>\<open>itertools.product\<close>:
  \<^verbatim>\<open>stop = numpy.minimum(start + roiShape, inputShape)\<close>.
\<close>

definition roi_at :: "int list \<Rightarrow> int list \<Rightarrow> int list \<Rightarrow> roi" where
  "roi_at inputShape roiShape indices =
     (indices, map2 min (map2 (+) indices roiShape) inputShape)"

text \<open>\<^verbatim>\<open>inputShape = self.Input.meta.shape\<close>: the extents of the tagged shape, in its order.\<close>

definition inputShape :: "tagged_shape \<Rightarrow> int list" where
  "inputShape taggedShape = map (\<lambda>(key, dim). int dim) taggedShape"

text \<open>
  \<^verbatim>\<open>itertools.product\<close> enumerates the grid of start coordinates in lexicographic order,
  the last axis running fastest, as \<open>product_lists\<close> does.
\<close>

definition getRoiList :: "int \<Rightarrow> tagged_shape \<Rightarrow> error + roi list" where
  "getRoiList numJobs taggedShape =
     (case numJobsPerSpaceDim numJobs (length (spaceDims taggedShape)) of
        Inl e \<Rightarrow> Inl e
      | Inr k \<Rightarrow>
         (case roiShape_loop k (map fst (spaceDims taggedShape)) taggedShape of
            Inl e \<Rightarrow> Inl e
          | Inr roiShape \<Rightarrow>
             (case ranges (zip (inputShape taggedShape) roiShape) of
                Inl e \<Rightarrow> Inl e
              | Inr rs \<Rightarrow>
                 Inr (map (roi_at (inputShape taggedShape) roiShape) (product_lists rs)))))"

text \<open>
  A point lies in a region when it is at or after the start and before the stop on every
  axis; the full volume of a shape is the region from the origin to the shape.
\<close>

definition in_roi :: "int list \<Rightarrow> roi \<Rightarrow> bool" where
  "in_roi p r = (list_all2 (\<le>) (fst r) p \<and> list_all2 (<) p (snd r))"

definition in_volume :: "int list \<Rightarrow> int list \<Rightarrow> bool" where
  "in_volume p shape = list_all2 (\<lambda>x d. 0 \<le> x \<and> x < d) p shape"

text \<open>The start of the grid cell that holds a point, for a given block shape.\<close>

definition cell_start :: "int list \<Rightarrow> int list \<Rightarrow> int list" where
  "cell_start p roiShape = map2 (\<lambda>y s. (y div s) * s) p roiShape"

subsection \<open>Strings and paths\<close>

text \<open>
  \<^verbatim>\<open>str\<close> of an integer and of a tuple of integers, \<^verbatim>\<open>os.path.join\<close> of two components
  (POSIX), and the two file name formats of the module.
\<close>

fun digits :: "nat \<Rightarrow> string" where
  "digits n =
     (if n < 10 then [char_of (48 + n)] else digits (n div 10) @ [char_of (48 + n mod 10)])"

declare digits.simps [simp del]

definition str_int :: "int \<Rightarrow> string" where
  "str_int i = (if i < 0 then CHR ''-'' # digits (nat (- i)) else digits (nat i))"

fun join_str :: "string \<Rightarrow> string list \<Rightarrow> string" where
  "join_str sep [] = []"
| "join_str sep [x] = x"
| "join_str sep (x # y # ys) = x @ sep @ join_str sep (y # ys)"

definition str_tuple :: "int list \<Rightarrow> string" where
  "str_tuple xs =
     (case xs of
        [] \<Rightarrow> ''()''
      | [x] \<Rightarrow> ''('' @ str_int x @ '',)''
      | _ \<Rightarrow> ''('' @ join_str '', '' (map str_int xs) @ '')'')"

definition str_roi :: "roi \<Rightarrow> string" where
  "str_roi r = ''('' @ str_tuple (fst r) @ '', '' @ str_tuple (snd r) @ '')''"

definition os_path_join :: "string \<Rightarrow> string \<Rightarrow> string" where
  "os_path_join a b =
     (if b \<noteq> [] \<and> hd b = CHR ''/'' then b
      else if a = [] \<or> last a = CHR ''/'' then a @ b
      else a @ ''/'' @ b)"

definition STATUS_FILE_NAME :: "string \<Rightarrow> string \<Rightarrow> string" where
  "STATUS_FILE_NAME taskName roiStr = taskName @ '' status '' @ roiStr @ ''.txt''"

definition OUTPUT_FILE_NAME :: "string \<Rightarrow> string \<Rightarrow> string" where
  "OUTPUT_FILE_NAME taskName roiStr = taskName @ '' output '' @ roiStr @ ''.h5''"

subsection \<open>Time: the class \<^verbatim>\<open>Timer\<close>\<close>

text \<open>
  A point in time (\<^verbatim>\<open>datetime.datetime\<close>) is a number of microseconds, a
  \<^verbatim>\<open>timedelta\<close> their difference. The attribute \<^verbatim>\<open>.seconds\<close> of a \<^verbatim>\<open>timedelta\<close> is the
  seconds field of its normal form (days, seconds in \<open>[0, 86400)\<close>, microseconds).
\<close>

record Timer =
  startTime :: "int option"
  stopTime :: "int option"

definition timedelta_seconds :: "int \<Rightarrow> int" where
  "timedelta_seconds us = (us div 1000000) mod 86400"

text \<open>\<^verbatim>\<open>Timer.seconds\<close>, with the reading of \<^verbatim>\<open>datetime.datetime.now()\<close> as an argument.\<close>

definition seconds :: "Timer \<Rightarrow> int \<Rightarrow> error + int" where
  "seconds tm now =
     (case startTime tm of
        None \<Rightarrow> Inl AssertionError
      | Some st \<Rightarrow>
         (case stopTime tm of
            None \<Rightarrow> Inr (timedelta_seconds (now - st))
          | Some sp \<Rightarrow> Inr (timedelta_seconds (sp - st))))"

subsection \<open>Files\<close>

text \<open>
  An HDF5 container maps dataset names to datasets; a dataset has a shape, an element
  type, string attributes and its elements (absent where nothing was written). A file is
  a text file, a complete container, or a container of which only some chunks have been
  written so far (which \<^verbatim>\<open>h5py\<close> cannot open). The file system maps paths to files;
  \<^verbatim>\<open>os.path.exists\<close> asks whether the path is mapped.
\<close>

record 'v dataset =
  ds_shape :: "int list"
  ds_dtype :: string
  ds_attrs :: "string \<rightharpoonup> string"
  ds_data :: "int list \<rightharpoonup> 'v"

type_synonym 'v h5file = "string \<rightharpoonup> 'v dataset"

datatype 'v content = Text string | H5 "'v h5file" | Incomplete nat

type_synonym 'v fs = "string \<rightharpoonup> 'v content"

subsection \<open>The worker: \<^verbatim>\<open>OpTaskWorker.execute\<close>\<close>

text \<open>
  The worker's inputs. \<^verbatim>\<open>Roi.loads\<close>, \<^verbatim>\<open>OpSubRegion\<close> and \<^verbatim>\<open>OpH5WriterBigDataset\<close> belong to
  lazyflow and are parameters here: \<open>Roi_loads\<close> decodes the region; \<open>WriteImage\<close> is the
  outcome of \<^verbatim>\<open>opH5Writer.WriteImage.value\<close>, the number of blocks the writer puts into the
  open container and then either the exception it raises or its return value together
  with the finished container. \<open>tempDir\<close> is the fresh directory that
  \<^verbatim>\<open>tempfile.mkdtemp()\<close> returns, \<open>chunks\<close> the number of buffers \<^verbatim>\<open>shutil.copyfile\<close> needs
  before the last one.
\<close>

record 'v worker =
  w_ScratchDirectory :: string
  w_RoiString :: string
  w_TaskName :: string
  Roi_loads :: "string \<Rightarrow> roi"
  tempDir :: string
  WriteImage :: "nat \<times> (error + bool \<times> 'v h5file)"
  chunks :: nat

definition w_statusFilePath :: "'v worker \<Rightarrow> string" where
  "w_statusFilePath w =
     os_path_join (w_ScratchDirectory w)
       (STATUS_FILE_NAME (w_TaskName w) (str_roi (Roi_loads w (w_RoiString w))))"

definition w_outputFilePath :: "'v worker \<Rightarrow> string" where
  "w_outputFilePath w =
     os_path_join (w_ScratchDirectory w)
       (OUTPUT_FILE_NAME (w_TaskName w) (str_roi (Roi_loads w (w_RoiString w))))"

definition tmpOutputFile :: "'v worker \<Rightarrow> string" where
  "tmpOutputFile w = os_path_join (tempDir w) (w_RoiString w @ ''.h5'')"

text \<open>
  \<^verbatim>\<open>shutil.copyfile(src, dst)\<close>: refuses to copy a file onto itself, opens the destination
  for writing (which empties it) and fills it buffer by buffer. The result is the list
  of the file-system states it goes through and the exception or the final state.
\<close>

definition copyfile ::
  "string \<Rightarrow> string \<Rightarrow> nat \<Rightarrow> 'v fs \<Rightarrow> 'v fs list \<times> (error + 'v fs)" where
  "copyfile src dst n fs =
     (if src = dst then ([], Inl ShutilError)
      else case fs src of
             None \<Rightarrow> ([], Inl IOError)
           | Some c \<Rightarrow>
               (map (\<lambda>i. fs(dst \<mapsto> Incomplete i)) [0..<Suc n] @ [fs(dst \<mapsto> c)],
                Inr (fs(dst \<mapsto> c))))"

text \<open>
  The worker, as the list of the file-system states that its effects produce one after
  the other, and its outcome: the container is opened for writing at the temporary path
  and filled block by block, closed when the \<^verbatim>\<open>with\<close> block ends, copied to the output
  path, and then the status file is opened for writing and \<^verbatim>\<open>'Yay!'\<close> written to it.
\<close>

definition OpTaskWorker_execute :: "'v worker \<Rightarrow> 'v fs \<Rightarrow> 'v fs list \<times> (error + bool)" where
  "OpTaskWorker_execute w fs =
     (let tmp = tmpOutputFile w;
          writing = map (\<lambda>i. fs(tmp \<mapsto> Incomplete i)) [0..<Suc (fst (WriteImage w))]
      in case snd (WriteImage w) of
           Inl e \<Rightarrow> (writing, Inl e)
         | Inr (val, f) \<Rightarrow>
            (let fs1 = fs(tmp \<mapsto> H5 f)
             in case copyfile tmp (w_outputFilePath w) (chunks w) fs1 of
                  (copying, Inl e) \<Rightarrow> (writing @ [fs1] @ copying, Inl e)
                | (copying, Inr fs2) \<Rightarrow>
                    (writing @ [fs1] @ copying @
                       [fs2(w_statusFilePath w \<mapsto> Text []),
                        fs2(w_statusFilePath w \<mapsto> Text ''Yay!'')],
                     Inr val)))"

subsection \<open>The master: \<^verbatim>\<open>OpClusterize\<close>\<close>

text \<open>
  The values of the operator's input slots, the metadata of its \<^verbatim>\<open>Input\<close> slot (tagged
  shape, element type, axis tags as JSON), the module variable \<^verbatim>\<open>tempfile.tempdir\<close>, and
  lazyflow's \<^verbatim>\<open>Roi.dumps\<close> as a parameter.
\<close>

record config =
  ProjectFilePath :: string
  ScratchDirectory :: string
  CommandFormat :: string
  WorkflowTypeName :: string
  NumJobs :: int
  TaskTimeoutSeconds :: int
  OutputFilePath :: string
  Input_taggedShape :: tagged_shape
  Input_dtype :: string
  Input_axistags :: string
  tempfile_tempdir :: "string option"
  Roi_dumps :: "roi \<Rightarrow> string"

record TaskInfo =
  taskName :: string
  command :: string
  statusFilePath :: string
  outputFilePath :: string
  subregion :: roi

text \<open>
  The dictionary \<^verbatim>\<open>taskInfos\<close>, keyed by region, is the list of its items; items are
  visited in the order of the list. Assignment replaces the value of a key that is there
  and adds the item otherwise; \<^verbatim>\<open>del\<close> removes the key's item.
\<close>

type_synonym task_infos = "(roi \<times> TaskInfo) list"

fun dict_set :: "'k \<Rightarrow> 'a \<Rightarrow> ('k \<times> 'a) list \<Rightarrow> ('k \<times> 'a) list" where
  "dict_set k v [] = [(k, v)]"
| "dict_set k v ((k', v') # rest) =
     (if k' = k then (k, v) # rest else (k', v') # dict_set k v rest)"

definition dict_del :: "'k \<Rightarrow> ('k \<times> 'a) list \<Rightarrow> ('k \<times> 'a) list" where
  "dict_del k d = filter (\<lambda>(k', v). k' \<noteq> k) d"

text \<open>
  \<^verbatim>\<open>commandFormat.format(args=allArgs, task_name=taskName)\<close>: doubled braces stand for a
  brace, a field named \<^verbatim>\<open>args\<close> or \<^verbatim>\<open>task_name\<close> is replaced, a positional field raises
  IndexError and any other field KeyError (conversions and format specifications are not
  told apart from unknown names), a brace without its partner raises ValueError.
\<close>

datatype fmt_state = Plain | Opened | Field string | Closed

definition format_field :: "string \<Rightarrow> string \<Rightarrow> string \<Rightarrow> error + string" where
  "format_field name args task_name =
     (if name = ''args'' then Inr args
      else if name = ''task_name'' then Inr task_name
      else if list_all (\<lambda>c. c \<in> set ''0123456789'') name then Inl IndexError
      else Inl KeyError)"

fun py_format :: "fmt_state \<Rightarrow> string \<Rightarrow> string \<Rightarrow> string \<Rightarrow> error + string" where
  "py_format Plain [] a t = Inr []"
| "py_format Plain (c # cs) a t =
     (if c = CHR ''{'' then py_format Opened cs a t
      else if c = CHR ''}'' then py_format Closed cs a t
      else (case py_format Plain cs a t of Inl e \<Rightarrow> Inl e | Inr r \<Rightarrow> Inr (c # r)))"
| "py_format Opened [] a t = Inl ValueError"
| "py_format Opened (c # cs) a t =
     (if c = CHR ''{'' then
        (case py_format Plain cs a t of Inl e \<Rightarrow> Inl e | Inr r \<Rightarrow> Inr (c # r))
      else if c = CHR ''}'' then
        (case format_field [] a t of
           Inl e \<Rightarrow> Inl e
         | Inr v \<Rightarrow> (case py_format Plain cs a t of Inl e \<Rightarrow> Inl e | Inr r \<Rightarrow> Inr (v @ r)))
      else py_format (Field [c]) cs a t)"
| "py_format (Field name) [] a t = Inl ValueError"
| "py_format (Field name) (c # cs) a t =
     (if c = CHR ''}'' then
        (case format_field name a t of
           Inl e \<Rightarrow> Inl e
         | Inr v \<Rightarrow> (case py_format Plain cs a t of Inl e \<Rightarrow> Inl e | Inr r \<Rightarrow> Inr (v @ r)))
      else py_format (Field (name @ [c])) cs a t)"
| "py_format Closed [] a t = Inl ValueError"
| "py_format Closed (c # cs) a t =
     (if c = CHR ''}'' then
        (case py_format Plain cs a t of Inl e \<Rightarrow> Inl e | Inr r \<Rightarrow> Inr (c # r))
      else Inl ValueError)"

text \<open>
  One pass of the loop of \<^verbatim>\<open>_prepareTaskInfos\<close> for every region and its index: the names
  and paths, the arguments, the check of the command format, the command, the entry in
  the dictionary, and the removal of files left from an earlier run. The exception, if
  any, comes with the file system as it is when it is raised.
\<close>

definition commandArgs :: "config \<Rightarrow> string \<Rightarrow> roi \<Rightarrow> string list" where
  "commandArgs cfg name roi =
     [''--workflow_type='' @ WorkflowTypeName cfg,
      ''--project='' @ ProjectFilePath cfg,
      ''--scratch_directory='' @ ScratchDirectory cfg,
      ''--_node_work_='' @ [CHR 0x22] @ Roi_dumps cfg roi @ [CHR 0x22],
      ''--process_name='' @ name] @
     (case tempfile_tempdir cfg of None \<Rightarrow> [] | Some d \<Rightarrow> [''--sys_tmp_dir='' @ d])"

definition os_remove_if_exists :: "string \<Rightarrow> 'v fs \<Rightarrow> 'v fs" where
  "os_remove_if_exists p fs = (if fs p \<noteq> None then fs(p := None) else fs)"

definition prepare_one ::
  "config \<Rightarrow> nat \<Rightarrow> roi \<Rightarrow> task_infos \<Rightarrow> 'v fs \<Rightarrow> (error + task_infos) \<times> 'v fs" where
  "prepare_one cfg roiIndex roi taskInfos fs =
     (let name = ''TASK_'' @ digits roiIndex;
          statusPath = os_path_join (ScratchDirectory cfg) (STATUS_FILE_NAME name (str_roi roi));
          outputPath = os_path_join (ScratchDirectory cfg) (OUTPUT_FILE_NAME name (str_roi roi))
      in if \<not> str_in ''{args}'' (CommandFormat cfg) then (Inl AssertionError, fs)
         else
           (case py_format Plain (CommandFormat cfg)
                   ('' '' @ join_str '' '' (commandArgs cfg name roi) @ '' '') name of
              Inl e \<Rightarrow> (Inl e, fs)
            | Inr cmd \<Rightarrow>
                (Inr (dict_set roi
                        \<lparr>taskName = name, command = cmd, statusFilePath = statusPath,
                         outputFilePath = outputPath, subregion = roi\<rparr> taskInfos),
                 os_remove_if_exists outputPath (os_remove_if_exists statusPath fs))))"

fun prepare_loop ::
  "config \<Rightarrow> (nat \<times> roi) list \<Rightarrow> task_infos \<Rightarrow> 'v fs \<Rightarrow> (error + task_infos) \<times> 'v fs" where
  "prepare_loop cfg [] taskInfos fs = (Inr taskInfos, fs)"
| "prepare_loop cfg ((roiIndex, roi) # rest) taskInfos fs =
     (case prepare_one cfg roiIndex roi taskInfos fs of
        (Inl e, fs') \<Rightarrow> (Inl e, fs')
      | (Inr taskInfos', fs') \<Rightarrow> prepare_loop cfg rest taskInfos' fs')"

definition prepareTaskInfos :: "config \<Rightarrow> 'v fs \<Rightarrow> (error + task_infos) \<times> 'v fs" where
  "prepareTaskInfos cfg fs =
     (case getRoiList (NumJobs cfg) (Input_taggedShape cfg) of
        Inl e \<Rightarrow> (Inl e, fs)
      | Inr rois \<Rightarrow> prepare_loop cfg (zip [0..<length rois] rois) [] fs)"

text \<open>
  numpy applies a binary operation to two vectors element by element; a vector of length
  one is stretched to the length of the other, and other lengths do not fit together.
\<close>

definition np_broadcast :: "(int \<Rightarrow> int \<Rightarrow> 'a) \<Rightarrow> int list \<Rightarrow> int list \<Rightarrow> 'a list option" where
  "np_broadcast f xs ys =
     (if length xs = length ys then Some (map2 f xs ys)
      else if length xs = 1 then Some (map (f (hd xs)) ys)
      else if length ys = 1 then Some (map (\<lambda>x. f x (hd ys)) xs)
      else None)"

text \<open>
  The checks of \<^verbatim>\<open>_copyFinishedResults\<close> on an opened result container, in their order:
  the dataset is there; \<^verbatim>\<open>numpy.all(shape == numpy.subtract(roi[1], roi[0]))\<close>, where the
  subtraction raises ValueError for vectors that do not fit together and the comparison
  of vectors that do not fit together is false; the element type; the attribute
  \<^verbatim>\<open>axistags\<close>, whose absence is a KeyError.
\<close>

definition check_result :: "config \<Rightarrow> roi \<Rightarrow> 'v h5file \<Rightarrow> error + 'v dataset" where
  "check_result cfg roi f =
     (case f ''node_result'' of
        None \<Rightarrow> Inl AssertionError
      | Some d \<Rightarrow>
         (case np_broadcast (-) (snd roi) (fst roi) of
            None \<Rightarrow> Inl ValueError
          | Some extent \<Rightarrow>
             (if \<not> (case np_broadcast (=) (ds_shape d) extent of
                       None \<Rightarrow> False
                     | Some bs \<Rightarrow> list_all (\<lambda>b. b) bs)
              then Inl AssertionError
              else if ds_dtype d \<noteq> Input_dtype cfg then Inl AssertionError
              else (case ds_attrs d ''axistags'' of
                      None \<Rightarrow> Inl KeyError
                    | Some a \<Rightarrow> if a \<noteq> Input_axistags cfg then Inl AssertionError else Inr d))))"

text \<open>
  \<^verbatim>\<open>destinationFile = h5py.File(self.OutputFilePath.value)\<close> opens the container for reading
  and writing and creates it when it is not there; then the dataset \<^verbatim>\<open>cluster_result\<close> is
  created, with the shape and element type of the input, unless the container has it.
\<close>

definition open_destination :: "config \<Rightarrow> 'v fs \<Rightarrow> error + 'v fs" where
  "open_destination cfg fs =
     (let fresh = \<lparr>ds_shape = inputShape (Input_taggedShape cfg), ds_dtype = Input_dtype cfg,
                   ds_attrs = Map.empty, ds_data = Map.empty\<rparr>
      in case fs (OutputFilePath cfg) of
           None \<Rightarrow> Inr (fs(OutputFilePath cfg \<mapsto> H5 [''cluster_result'' \<mapsto> fresh]))
         | Some (H5 g) \<Rightarrow>
             (if g ''cluster_result'' \<noteq> None then Inr fs
              else Inr (fs(OutputFilePath cfg \<mapsto> H5 (g(''cluster_result'' \<mapsto> fresh)))))
         | Some _ \<Rightarrow> Inl IOError)"

text \<open>
  \<^verbatim>\<open>destinationFile['cluster_result'][key] = f['node_result'][:]\<close> with the slices of the
  region as key: the elements of the region take the values of the result (which values a
  result of another rank leaves after stretching is not modelled). A selection that does
  not lie in the dataset cannot take the result (TypeError).
\<close>

definition write_region :: "roi \<Rightarrow> 'v dataset \<Rightarrow> 'v dataset \<Rightarrow> 'v dataset" where
  "write_region key src dst =
     dst\<lparr>ds_data := (\<lambda>p. if in_roi p key then ds_data src (map2 (-) p (fst key))
                          else ds_data dst p)\<rparr>"

definition write_result :: "config \<Rightarrow> roi \<Rightarrow> 'v dataset \<Rightarrow> 'v fs \<Rightarrow> error + 'v fs" where
  "write_result cfg key src fs =
     (case fs (OutputFilePath cfg) of
        Some (H5 g) \<Rightarrow>
          (case g ''cluster_result'' of
             None \<Rightarrow> Inl KeyError
           | Some dst \<Rightarrow>
               (if list_all (\<lambda>x. 0 \<le> x) (fst key) \<and> list_all2 (\<le>) (snd key) (ds_shape dst)
                then Inr (fs(OutputFilePath cfg \<mapsto>
                            H5 (g(''cluster_result'' \<mapsto> write_region key src dst))))
                else Inl TypeError))
      | _ \<Rightarrow> Inl IOError)"

text \<open>
  The body of the loop of \<^verbatim>\<open>_copyFinishedResults\<close> for one item. \<open>opened\<close> tells whether
  \<^verbatim>\<open>destinationFile\<close> is open already. The result is the exception with the file system as
  it is then, or whether the item's result was copied.
\<close>

definition copy_one ::
  "config \<Rightarrow> roi \<Rightarrow> TaskInfo \<Rightarrow> bool \<Rightarrow> 'v fs \<Rightarrow> (error + bool) \<times> 'v fs" where
  "copy_one cfg roi taskInfo opened fs =
     (if fs (statusFilePath taskInfo) = None then (Inr False, fs)
      else if fs (outputFilePath taskInfo) = None then (Inl RuntimeError, fs)
      else (case fs (outputFilePath taskInfo) of
              Some (H5 f) \<Rightarrow>
                (case check_result cfg roi f of
                   Inl e \<Rightarrow> (Inl e, fs)
                 | Inr d \<Rightarrow>
                    (case (if opened then Inr fs else open_destination cfg fs) of
                       Inl e \<Rightarrow> (Inl e, fs)
                     | Inr fs1 \<Rightarrow>
                        (case write_result cfg (subregion taskInfo) d fs1 of
                           Inl e \<Rightarrow> (Inl e, fs1)
                         | Inr fs2 \<Rightarrow> (Inr True, fs2))))
            | _ \<Rightarrow> (Inl IOError, fs)))"

fun copy_loop ::
  "config \<Rightarrow> task_infos \<Rightarrow> roi list \<Rightarrow> bool \<Rightarrow> 'v fs \<Rightarrow> (error + roi list) \<times> 'v fs" where
  "copy_loop cfg [] finished_rois opened fs = (Inr finished_rois, fs)"
| "copy_loop cfg ((roi, taskInfo) # rest) finished_rois opened fs =
     (case copy_one cfg roi taskInfo opened fs of
        (Inl e, fs') \<Rightarrow> (Inl e, fs')
      | (Inr copied, fs') \<Rightarrow>
          copy_loop cfg rest (if copied then finished_rois @ [roi] else finished_rois)
            (opened \<or> copied) fs')"

text \<open>Closing the destination after the loop leaves the files as they are.\<close>

definition copyFinishedResults :: "config \<Rightarrow> task_infos \<Rightarrow> 'v fs \<Rightarrow> (error + roi list) \<times> 'v fs" where
  "copyFinishedResults cfg taskInfos fs = copy_loop cfg taskInfos [] False fs"

definition checkForFailures :: "task_infos \<Rightarrow> roi list" where
  "checkForFailures taskInfos = []"

text \<open>
  What the master observes from outside in one pass of its polling loop: the reading of
  the clock when the pass checks the time, and the files that the workers have written
  by the time the pass, after its sleep, looks for results.
\<close>

record 'v tick =
  now :: int
  arrived :: "(string \<times> 'v content) list"

definition apply_writes :: "(string \<times> 'v content) list \<Rightarrow> 'v fs \<Rightarrow> 'v fs" where
  "apply_writes ws fs = foldl (\<lambda>f (p, c). f(p \<mapsto> c)) fs ws"

text \<open>
  One pass of the \<^verbatim>\<open>while\<close> loop of \<^verbatim>\<open>execute\<close>: on the left the end of the loop, by an
  exception or by the \<^verbatim>\<open>break\<close> with \<^verbatim>\<open>success = False\<close>; on the right the dictionary and
  the flag for the next pass.
\<close>

definition poll_step ::
  "config \<Rightarrow> Timer \<Rightarrow> 'v tick \<Rightarrow> task_infos \<Rightarrow> bool \<Rightarrow> 'v fs \<Rightarrow>
     ((error + bool) + task_infos \<times> bool) \<times> 'v fs" where
  "poll_step cfg totalTimer t taskInfos success fs =
     (case seconds totalTimer (now t) of
        Inl e \<Rightarrow> (Inl (Inl e), fs)
      | Inr s \<Rightarrow>
         (if s \<ge> TaskTimeoutSeconds cfg then (Inl (Inr False), fs)
          else (case copyFinishedResults cfg taskInfos (apply_writes (arrived t) fs) of
                  (Inl e, fs') \<Rightarrow> (Inl (Inl e), fs')
                | (Inr finished_rois, fs') \<Rightarrow>
                    (let taskInfos1 = foldl (\<lambda>d roi. dict_del roi d) taskInfos finished_rois;
                         failed_rois = checkForFailures taskInfos1
                     in (Inr (foldl (\<lambda>d roi. dict_del roi d) taskInfos1 failed_rois,
                              (if length failed_rois > 0 then False else success)),
                         fs')))))"

text \<open>
  The loop over the observations of the passes. When the observations end while tasks are
  left, the loop has not ended: the result is \<open>None\<close>. Otherwise the result is the
  exception or the value of \<^verbatim>\<open>success\<close>, with the tasks still in the dictionary, the files,
  and the observations not used.
\<close>

record 'v polled =
  result :: "(error + bool) option"
  active :: task_infos
  files :: "'v fs"
  unread :: "'v tick list"

fun poll_loop ::
  "config \<Rightarrow> Timer \<Rightarrow> 'v tick list \<Rightarrow> task_infos \<Rightarrow> bool \<Rightarrow> 'v fs \<Rightarrow> 'v polled" where
  "poll_loop cfg totalTimer [] taskInfos success fs =
     \<lparr>result = (if length taskInfos > 0 then None else Some (Inr success)),
      active = taskInfos, files = fs, unread = []\<rparr>"
| "poll_loop cfg totalTimer (t # rest) taskInfos success fs =
     (if length taskInfos > 0 then
        (case poll_step cfg totalTimer t taskInfos success fs of
           (Inl r, fs') \<Rightarrow> \<lparr>result = Some r, active = taskInfos, files = fs', unread = rest\<rparr>
         | (Inr (taskInfos', success'), fs') \<Rightarrow>
             poll_loop cfg totalTimer rest taskInfos' success' fs')
      else \<lparr>result = Some (Inr success), active = taskInfos, files = fs, unread = t # rest\<rparr>)"

text \<open>
  \<^verbatim>\<open>OpClusterize.execute\<close>: the tasks are prepared, every command is handed to a thread that
  spawns it, and the loop polls with a timer started at \<open>start\<close>. The result is the list of
  the commands spawned and the end of the polling.
\<close>

definition execute :: "config \<Rightarrow> int \<Rightarrow> 'v tick list \<Rightarrow> 'v fs \<Rightarrow> string list \<times> 'v polled" where
  "execute cfg start ticks fs =
     (case prepareTaskInfos cfg fs of
        (Inl e, fs') \<Rightarrow>
          ([], \<lparr>result = Some (Inl e), active = [], files = fs', unread = ticks\<rparr>)
      | (Inr taskInfos, fs') \<Rightarrow>
          (map (\<lambda>(roi, taskInfo). command taskInfo) taskInfos,
           poll_loop cfg \<lparr>startTime = Some start, stopTime = None\<rparr> ticks taskInfos True fs'))"

subsection \<open>Notions for the statements about the master\<close>

text \<open>
  A pass of the aggregation that goes on changes no file but the destination, and of the
  destination no dataset but \<^verbatim>\<open>cluster_result\<close>.
\<close>

definition dest_only :: "config \<Rightarrow> 'v fs \<Rightarrow> 'v fs \<Rightarrow> bool" where
  "dest_only cfg fs fs' \<longleftrightarrow>
     (\<forall>p. p \<noteq> OutputFilePath cfg \<longrightarrow> fs' p = fs p) \<and>
     (fs' (OutputFilePath cfg) = fs (OutputFilePath cfg) \<or>
      (\<exists>g'. fs' (OutputFilePath cfg) = Some (H5 g') \<and>
         (\<forall>n. n \<noteq> ''cluster_result'' \<longrightarrow>
            g' n = (case fs (OutputFilePath cfg) of Some (H5 g) \<Rightarrow> g n | _ \<Rightarrow> None))))"

text \<open>
  A task whose status file is there and whose output file is not; should the output path
  be the destination's, the destination as the master itself made it counts as no output.
\<close>

definition marked_without_output :: "config \<Rightarrow> TaskInfo \<Rightarrow> 'v fs \<Rightarrow> bool" where
  "marked_without_output cfg ti fs \<longleftrightarrow>
     fs (statusFilePath ti) \<noteq> None \<and>
     (fs (outputFilePath ti) = None \<or>
      (outputFilePath ti = OutputFilePath cfg \<and>
       (\<exists>g. fs (outputFilePath ti) = Some (H5 g) \<and> g ''node_result'' = None)))"

subsection \<open>Example inputs\<close>

text \<open>
  A master with two jobs on a volume of 4 by 2 and a timeout of one polling interval
  (scenario D), and observations of its polling loop.
\<close>

definition scenario_D_config :: config where
  "scenario_D_config =
     \<lparr>ProjectFilePath = ''project.ilp'', ScratchDirectory = ''/scratch'',
      CommandFormat = ''qsub -N {task_name} node.sh {args}'',
      WorkflowTypeName = ''PixelClassification'',
      NumJobs = 2, TaskTimeoutSeconds = 15, OutputFilePath = ''/scratch/total.h5'',
      Input_taggedShape = [(''x'', 4), (''c'', 2)], Input_dtype = ''uint8'',
      Input_axistags = ''xc'', tempfile_tempdir = None, Roi_dumps = str_roi\<rparr>"

definition one_day_config :: config where
  "one_day_config = scenario_D_config\<lparr>TaskTimeoutSeconds := 86400\<rparr>"

definition no_placeholder_config :: config where
  "no_placeholder_config = scenario_D_config\<lparr>CommandFormat := ''qsub node.sh''\<rparr>"

definition no_region_config :: config where
  "no_region_config =
     scenario_D_config\<lparr>CommandFormat := ''qsub node.sh'', NumJobs := - 1,
                        Input_taggedShape := [(''x'', 4)]\<rparr>"

text \<open>The tasks that the master of scenario D prepares on an empty file system.\<close>

definition scenario_D_tasks :: task_infos where
  "scenario_D_tasks = active (snd (execute scenario_D_config 0 [] (Map.empty :: nat fs)))"

definition example_task0 :: "roi \<times> TaskInfo" where
  "example_task0 = scenario_D_tasks ! 0"

definition example_task1 :: "roi \<times> TaskInfo" where
  "example_task1 = scenario_D_tasks ! 1"

definition first_check :: "nat tick" where
  "first_check = \<lparr>now = 0, arrived = []\<rparr>"

definition second_check :: "nat tick" where
  "second_check = \<lparr>now = 15000000, arrived = []\<rparr>"

definition day_check :: "nat tick" where
  "day_check = \<lparr>now = 86400000000, arrived = []\<rparr>"

definition stale_files :: "nat fs" where
  "stale_files = [''/scratch/TASK_0 status ((0, 0), (2, 2)).txt'' \<mapsto> Text ''Yay!'']"

text \<open>Results as a worker leaves them: a good one, and one of the wrong element type.\<close>

definition example_result :: "nat h5file" where
  "example_result =
     [''node_result'' \<mapsto>
        \<lparr>ds_shape = [2, 2], ds_dtype = ''uint8'', ds_attrs = [''axistags'' \<mapsto> ''xc''],
         ds_data = Map.empty\<rparr>]"

definition wrong_dtype_result :: "nat h5file" where
  "wrong_dtype_result =
     [''node_result'' \<mapsto>
        \<lparr>ds_shape = [2, 2], ds_dtype = ''float32'', ds_attrs = [''axistags'' \<mapsto> ''xc''],
         ds_data = Map.empty\<rparr>]"

text \<open>A result of shape (2,), with the element type and axis tags of the input.\<close>

definition short_shape_result :: "nat h5file" where
  "short_shape_result =
     [''node_result'' \<mapsto>
        \<lparr>ds_shape = [2], ds_dtype = ''uint8'', ds_attrs = [''axistags'' \<mapsto> ''xc''],
         ds_data = Map.empty\<rparr>]"

text \<open>
  By the first look, task 0 has delivered a good result and task 1 one of the wrong element
  type; or task 1 has its status file and no output file.
\<close>

definition mismatch_tick :: "nat tick" where
  "mismatch_tick =
     \<lparr>now = 0,
      arrived =
        [(''/scratch/TASK_0 output ((0, 0), (2, 2)).h5'', H5 example_result),
         (''/scratch/TASK_0 status ((0, 0), (2, 2)).txt'', Text ''Yay!''),
         (''/scratch/TASK_1 output ((2, 0), (4, 2)).h5'', H5 wrong_dtype_result),
         (''/scratch/TASK_1 status ((2, 0), (4, 2)).txt'', Text ''Yay!'')]\<rparr>"

definition marker_only_tick :: "nat tick" where
  "marker_only_tick =
     \<lparr>now = 0, arrived = [(''/scratch/TASK_1 status ((2, 0), (4, 2)).txt'', Text ''Yay!'')]\<rparr>"

text \<open>
  By the first look, task 0 has delivered a good result and task 1 the result of shape
  (2,).
\<close>

definition broadcast_tick :: "nat tick" where
  "broadcast_tick =
     \<lparr>now = 0,
      arrived =
        [(''/scratch/TASK_0 output ((0, 0), (2, 2)).h5'', H5 example_result),
         (''/scratch/TASK_0 status ((0, 0), (2, 2)).txt'', Text ''Yay!''),
         (''/scratch/TASK_1 output ((2, 0), (4, 2)).h5'', H5 short_shape_result),
         (''/scratch/TASK_1 status ((2, 0), (4, 2)).txt'', Text ''Yay!'')]\<rparr>"

text \<open>A worker for the first region of that volume.\<close>

definition example_worker :: "nat worker" where
  "example_worker =
     \<lparr>w_ScratchDirectory = ''/scratch'', w_RoiString = ''roi0'', w_TaskName = ''TASK_0'',
      Roi_loads = (\<lambda>s. ([0, 0], [2, 2])), tempDir = ''/tmp/tmpQ1'',
      WriteImage = (0, Inr (True, example_result)), chunks = 0\<rparr>"

section \<open>Properties of the partitioner\<close>

lemma py_range_pos_set:
  assumes "0 < step" "py_range stop step = Inr r"
  shows "x \<in> set r \<longleftrightarrow> 0 \<le> x \<and> x < stop \<and> step dvd x"
proof
  assume "x \<in> set r"
  then obtain i where i: "i < nat ((stop + step - 1) div step)" "x = int i * step"
    using assms by (auto simp: py_range_def)
  then have "int i + 1 \<le> (stop + step - 1) div step" by linarith
  then have "(int i + 1) * step \<le> ((stop + step - 1) div step) * step"
    using assms(1) by (simp add: mult_right_mono)
  also have "\<dots> \<le> stop + step - 1"
    using assms(1) by (metis pos_mod_sign cancel_div_mod_rules(1) add.commute le_add_same_cancel1 add_0)
  finally have "int i * step < stop" by (simp add: algebra_simps)
  then show "0 \<le> x \<and> x < stop \<and> step dvd x" using i assms(1) by simp
next
  assume a: "0 \<le> x \<and> x < stop \<and> step dvd x"
  then obtain m where m: "x = m * step" by (metis dvd_def mult.commute)
  with a assms(1) have m0: "0 \<le> m" by (simp add: zero_le_mult_iff)
  have "(m + 1) * step \<le> stop + step - 1" using a m by (simp add: algebra_simps)
  then have "((m + 1) * step) div step \<le> (stop + step - 1) div step"
    using assms(1) by (rule zdiv_mono1)
  then have "m + 1 \<le> (stop + step - 1) div step"
    using assms(1) by simp
  then have "nat m < nat ((stop + step - 1) div step)" using m0 by linarith
  then have lt: "nat m \<in> set [0..<nat ((stop + step - 1) div step)]" by simp
  have r: "r = map (\<lambda>i. int i * step) [0..<nat ((stop + step - 1) div step)]"
    using assms by (simp add: py_range_def)
  have "int (nat m) * step \<in> set r"
    unfolding r set_map using lt by (rule image_eqI[rotated]) simp
  then show "x \<in> set r" using m m0 by simp
qed

lemma py_range_neg_empty:
  assumes "step < 0" "0 \<le> stop" "py_range stop step = Inr r"
  shows "r = []"
proof -
  have "(stop + step + 1) div step \<le> 0"
  proof (cases "0 \<le> stop + step + 1")
    case True
    then show ?thesis using assms(1) by (simp add: div_nonneg_neg_le0)
  next
    case False
    then have "stop + step + 1 \<le> 0" "step < stop + step + 1" using assms(2) by auto
    then show ?thesis by simp
  qed
  then show ?thesis using assms by (auto simp: py_range_def)
qed

lemma py_range_distinct:
  assumes "py_range stop step = Inr r"
  shows "distinct r"
  using assms by (auto simp: py_range_def distinct_map inj_on_def split: if_splits)

lemma py_range_step_nonzero: "py_range stop step = Inr r \<Longrightarrow> step \<noteq> 0"
  by (auto simp: py_range_def)

lemma ranges_Inr:
  "ranges zs = Inr rs \<Longrightarrow>
     length rs = length zs \<and> (\<forall>a<length zs. py_range (fst (zs ! a)) (snd (zs ! a)) = Inr (rs ! a))"
proof (induction zs arbitrary: rs)
  case Nil
  then show ?case by simp
next
  case (Cons z zs)
  obtain stop step where z: "z = (stop, step)" by (cases z)
  from Cons.prems z obtain r rs' where r: "py_range stop step = Inr r" "ranges zs = Inr rs'" "rs = r # rs'"
    by (auto split: sum.splits)
  from Cons.IH[OF r(2)] r z show ?case by (auto simp: nth_Cons split: nat.splits)
qed

lemma roiShape_loop_Inr:
  "roiShape_loop k keys ts = Inr sh \<Longrightarrow>
     length sh = length ts \<and>
     (\<forall>a<length ts. sh ! a = (if fst (ts ! a) \<in> set keys then int (snd (ts ! a)) div k
                              else int (snd (ts ! a))))"
proof (induction k keys ts arbitrary: sh rule: roiShape_loop.induct)
  case (1 k keys)
  then show ?case by simp
next
  case (2 k keys key dim rest)
  then show ?case
    by (auto simp: nth_Cons split: if_splits sum.splits nat.splits)
qed

lemma nearest_root_pos: "1 \<le> J \<Longrightarrow> 1 \<le> nearest_root J S"
proof -
  assume J: "1 \<le> J"
  have "[0..<Suc (nat J)] = 0 # [1..<Suc (nat J)]" by (simp add: upt_rec)
  moreover have "(1::int) \<le> 2 ^ S * J" using J
    by (metis one_le_numeral one_le_power mult.commute mult_1 order_trans zero_le_one mult_mono)
  ultimately show ?thesis by (simp add: nearest_root_def)
qed

lemma numJobsPerSpaceDim_pos:
  "1 \<le> J \<Longrightarrow> numJobsPerSpaceDim J S = Inr k \<Longrightarrow> 1 \<le> k"
  using nearest_root_pos by (auto simp: numJobsPerSpaceDim_def split: if_splits)

lemma block_unique:
  fixes x y s :: int
  assumes "0 < s" "s dvd x"
  shows "(x \<le> y \<and> y < x + s) \<longleftrightarrow> x = (y div s) * s"
proof -
  have md: "y - (y div s) * s = y mod s" by (rule minus_div_mult_eq_mod)
  have lo: "(y div s) * s \<le> y" and hi: "y < (y div s) * s + s"
    using md pos_mod_sign[OF assms(1), of y] pos_mod_bound[OF assms(1), of y] by linarith+
  show ?thesis
  proof
    assume a: "x \<le> y \<and> y < x + s"
    from assms(2) obtain m where m: "x = m * s" by (metis dvd_def mult.commute)
    have "m * s < (y div s) * s + s" using a hi m by linarith
    then have "m * s < (y div s + 1) * s" by (simp add: algebra_simps)
    then have 1: "m < y div s + 1" using assms(1) by (simp add: mult_less_cancel_right)
    have "(y div s) * s < (m + 1) * s" using a lo m by (simp add: algebra_simps)
    then have 2: "y div s < m + 1" using assms(1) by (simp add: mult_less_cancel_right)
    from 1 2 have "y div s = m" by linarith
    then show "x = (y div s) * s" using m by simp
  next
    assume "x = (y div s) * s"
    then show "x \<le> y \<and> y < x + s" using lo hi by simp
  qed
qed

lemma product_lists_nth:
  "idx \<in> set (product_lists rs) \<longleftrightarrow> length idx = length rs \<and> (\<forall>a<length rs. idx ! a \<in> set (rs ! a))"
  by (auto simp: product_lists_set list_all2_conv_all_nth)

lemma in_roi_roi_at:
  assumes "length idx = length sh" "length ds = length sh"
  shows "in_roi p (roi_at ds sh idx) \<longleftrightarrow>
     length p = length sh \<and>
     (\<forall>a<length sh. idx ! a \<le> p ! a \<and> p ! a < min (idx ! a + sh ! a) (ds ! a))"
proof -
  let ?stop = "map2 min (map2 (+) idx sh) ds"
  have l: "length ?stop = length sh" using assms by simp
  have n: "?stop ! a = min (idx ! a + sh ! a) (ds ! a)" if "a < length sh" for a
    using that assms by simp
  have "in_roi p (roi_at ds sh idx) \<longleftrightarrow> list_all2 (\<le>) idx p \<and> list_all2 (<) p ?stop"
    by (simp add: in_roi_def roi_at_def)
  also have "\<dots> \<longleftrightarrow> length p = length sh \<and>
     (\<forall>a<length sh. idx ! a \<le> p ! a) \<and> (\<forall>a<length sh. p ! a < ?stop ! a)"
    unfolding list_all2_conv_all_nth l using assms(1) by metis
  also have "\<dots> \<longleftrightarrow> length p = length sh \<and>
     (\<forall>a<length sh. idx ! a \<le> p ! a \<and> p ! a < min (idx ! a + sh ! a) (ds ! a))"
    using n by metis
  finally show ?thesis .
qed

lemma in_volume_nth:
  "in_volume p ds \<longleftrightarrow> length p = length ds \<and> (\<forall>a<length ds. 0 \<le> p ! a \<and> p ! a < ds ! a)"
  by (auto simp: in_volume_def list_all2_conv_all_nth)

lemma in_roi_cell:
  assumes len: "length ds = length sh" "length rs = length sh"
    and rng: "\<forall>a<length sh. py_range (ds ! a) (sh ! a) = Inr (rs ! a)"
    and pos: "\<forall>a<length sh. 0 < sh ! a"
    and idx: "idx \<in> set (product_lists rs)"
  shows "in_roi p (roi_at ds sh idx) \<longleftrightarrow> in_volume p ds \<and> idx = cell_start p sh"
proof -
  from idx len have li: "length idx = length sh" and mem: "\<forall>a<length sh. idx ! a \<in> set (rs ! a)"
    by (auto simp: product_lists_nth)
  have ax: "0 \<le> idx ! a \<and> idx ! a < ds ! a \<and> sh ! a dvd idx ! a" if "a < length sh" for a
    using py_range_pos_set[of "sh ! a" "ds ! a" "rs ! a" "idx ! a"] that rng pos mem by auto
  show ?thesis
  proof
    assume "in_roi p (roi_at ds sh idx)"
    then have lp: "length p = length sh"
      and b: "\<forall>a<length sh. idx ! a \<le> p ! a \<and> p ! a < min (idx ! a + sh ! a) (ds ! a)"
      using in_roi_roi_at[OF li len(1)] by auto
    have "0 \<le> p ! a \<and> p ! a < ds ! a" if "a < length sh" for a
      using b ax[OF that] that by force
    then have "in_volume p ds"
      using lp len by (simp add: in_volume_nth)
    moreover have "idx = cell_start p sh"
    proof (rule nth_equalityI)
      show "length idx = length (cell_start p sh)" using li lp by (simp add: cell_start_def)
    next
      fix a assume "a < length idx"
      then have a: "a < length sh" using li by simp
      have "idx ! a = (p ! a div sh ! a) * sh ! a"
        using block_unique[of "sh ! a" "idx ! a" "p ! a"] ax[OF a] pos a b by auto
      then show "idx ! a = cell_start p sh ! a"
        using a lp by (simp add: cell_start_def)
    qed
    ultimately show "in_volume p ds \<and> idx = cell_start p sh" ..
  next
    assume r: "in_volume p ds \<and> idx = cell_start p sh"
    then have lp: "length p = length sh" and v: "\<forall>a<length sh. p ! a < ds ! a"
      using len by (auto simp: in_volume_nth)
    have "idx ! a \<le> p ! a \<and> p ! a < min (idx ! a + sh ! a) (ds ! a)" if a: "a < length sh" for a
    proof -
      have "idx ! a = (p ! a div sh ! a) * sh ! a"
        using r a lp by (simp add: cell_start_def)
      then have "idx ! a \<le> p ! a \<and> p ! a < idx ! a + sh ! a"
        using block_unique[of "sh ! a" "idx ! a" "p ! a"] ax[OF a] pos a by auto
      then show ?thesis using v a by simp
    qed
    then show "in_roi p (roi_at ds sh idx)"
      using in_roi_roi_at[OF li len(1)] lp by auto
  qed
qed

lemma cell_start_in_product:
  assumes len: "length ds = length sh" "length rs = length sh"
    and rng: "\<forall>a<length sh. py_range (ds ! a) (sh ! a) = Inr (rs ! a)"
    and pos: "\<forall>a<length sh. 0 < sh ! a"
    and vol: "in_volume p ds"
  shows "cell_start p sh \<in> set (product_lists rs)"
proof -
  from vol len have lp: "length p = length sh"
    and v: "\<forall>a<length sh. 0 \<le> p ! a \<and> p ! a < ds ! a"
    by (auto simp: in_volume_nth)
  have "cell_start p sh ! a \<in> set (rs ! a)" if a: "a < length sh" for a
  proof -
    let ?x = "(p ! a div sh ! a) * sh ! a"
    have s: "0 < sh ! a" using pos a by simp
    have "?x \<le> p ! a \<and> p ! a < ?x + sh ! a"
      using block_unique[of "sh ! a" ?x "p ! a"] s by simp
    moreover have "0 \<le> ?x" using s v a by (simp add: pos_imp_zdiv_nonneg_iff)
    ultimately have "0 \<le> ?x \<and> ?x < ds ! a \<and> sh ! a dvd ?x" using v a by force
    then have "?x \<in> set (rs ! a)"
      using py_range_pos_set[of "sh ! a" "ds ! a" "rs ! a" ?x] s rng a by simp
    then show ?thesis using a lp by (simp add: cell_start_def)
  qed
  then show ?thesis using lp len by (simp add: product_lists_nth cell_start_def)
qed

lemma getRoiList_Inr:
  assumes "getRoiList J ts = Inr rois"
  obtains k sh rs where
    "numJobsPerSpaceDim J (length (spaceDims ts)) = Inr k"
    "roiShape_loop k (map fst (spaceDims ts)) ts = Inr sh"
    "ranges (zip (inputShape ts) sh) = Inr rs"
    "rois = map (roi_at (inputShape ts) sh) (product_lists rs)"
  using assms by (auto simp: getRoiList_def split: sum.splits)

lemma inputShape_nth:
  "length (inputShape ts) = length ts"
  "a < length ts \<Longrightarrow> inputShape ts ! a = int (snd (ts ! a))"
  by (simp_all add: inputShape_def case_prod_unfold)

lemma grid_lengths:
  assumes "roiShape_loop k keys ts = Inr sh" "ranges (zip (inputShape ts) sh) = Inr rs"
  shows "length sh = length ts" "length (inputShape ts) = length sh" "length rs = length sh"
    "\<forall>a<length sh. py_range (inputShape ts ! a) (sh ! a) = Inr (rs ! a)"
proof -
  show l: "length sh = length ts" using roiShape_loop_Inr[OF assms(1)] by simp
  then show "length (inputShape ts) = length sh" by (simp add: inputShape_nth)
  with ranges_Inr[OF assms(2)] show "length rs = length sh"
    "\<forall>a<length sh. py_range (inputShape ts ! a) (sh ! a) = Inr (rs ! a)"
    by (simp_all add: l inputShape_nth)
qed

lemma grid_steps_pos:
  assumes "1 \<le> k" "roiShape_loop k keys ts = Inr sh" "ranges (zip (inputShape ts) sh) = Inr rs"
  shows "\<forall>a<length sh. 0 < sh ! a" "\<forall>a<length sh. 0 < inputShape ts ! a"
proof -
  note g = grid_lengths[OF assms(2,3)]
  have "0 < sh ! a \<and> 0 < inputShape ts ! a" if a: "a < length sh" for a
  proof -
    from a g have nz: "sh ! a \<noteq> 0" using py_range_step_nonzero by blast
    have eq: "sh ! a = int (snd (ts ! a)) div k \<or> sh ! a = int (snd (ts ! a))"
      using roiShape_loop_Inr[OF assms(2)] a g(1) by auto
    then have "0 \<le> sh ! a" using assms(1) by (auto simp: pos_imp_zdiv_nonneg_iff)
    moreover have "snd (ts ! a) \<noteq> 0"
    proof
      assume "snd (ts ! a) = 0"
      then have "sh ! a = 0" using eq by auto
      then show False using nz by simp
    qed
    ultimately show ?thesis using nz a g(1) by (simp add: inputShape_nth)
  qed
  then show "\<forall>a<length sh. 0 < sh ! a" "\<forall>a<length sh. 0 < inputShape ts ! a" by simp_all
qed

lemma py_range_elem_lt:
  assumes "py_range stop step = Inr r" "0 \<le> stop" "x \<in> set r"
  shows "x < min (x + step) stop"
proof (cases "0 < step")
  case True
  then show ?thesis using py_range_pos_set[OF True assms(1), of x] assms(3) by simp
next
  case False
  then have "step < 0" using py_range_step_nonzero[OF assms(1)] by simp
  then have "r = []" using assms by (simp add: py_range_neg_empty)
  then show ?thesis using assms(3) by simp
qed

text \<open>
  Claim C10. Every region that the partitioner returns is non-empty along every axis: its
  start and its stop have one coordinate for each axis of the shape, and on each axis the
  stop is greater than the start. This holds for every job count, since a call that does
  not raise returns regions of the grid only.
\<close>

theorem rois_nonempty_extent:
  assumes "getRoiList J ts = Inr rois" "(start, stop) \<in> set rois"
  shows "length start = length ts \<and> length stop = length ts \<and>
         (\<forall>i<length ts. start ! i < stop ! i)"
proof -
  from assms(1) obtain k sh rs where
    sh: "roiShape_loop k (map fst (spaceDims ts)) ts = Inr sh"
    and rs: "ranges (zip (inputShape ts) sh) = Inr rs"
    and rois: "rois = map (roi_at (inputShape ts) sh) (product_lists rs)"
    by (rule getRoiList_Inr)
  note g = grid_lengths[OF sh rs]
  from assms(2) rois obtain idx where idx: "idx \<in> set (product_lists rs)"
    and r: "(start, stop) = roi_at (inputShape ts) sh idx" by auto
  from idx g have li: "length idx = length sh" and mem: "\<forall>a<length sh. idx ! a \<in> set (rs ! a)"
    by (auto simp: product_lists_nth)
  from r have st: "start = idx" and sp: "stop = map2 min (map2 (+) idx sh) (inputShape ts)"
    by (simp_all add: roi_at_def)
  have "start ! i < stop ! i" if i: "i < length ts" for i
  proof -
    have i': "i < length sh" using i g(1) by simp
    have "0 \<le> inputShape ts ! i" using i by (simp add: inputShape_nth)
    then have "idx ! i < min (idx ! i + sh ! i) (inputShape ts ! i)"
      using py_range_elem_lt[of "inputShape ts ! i" "sh ! i" "rs ! i" "idx ! i"] g(4) mem i' by simp
    then show ?thesis using st sp li g i' by simp
  qed
  moreover have "length start = length ts" "length stop = length ts"
    using st sp li g by simp_all
  ultimately show ?thesis by simp
qed

theorem rois_nonempty_extent_witness:
  "getRoiList 2 [(''x'', 4), (''c'', 2)] = Inr [([0, 0], [2, 2]), ([2, 0], [4, 2])] \<and>
   (([2, 0], [4, 2]) :: roi) \<in> set [([0, 0], [2, 2]), ([2, 0], [4, 2])] \<and>
   length [2, 0 :: int] = length [(''x'', 4 :: nat), (''c'', 2)] \<and>
   length [4, 2 :: int] = length [(''x'', 4 :: nat), (''c'', 2)] \<and>
   [2, 0 :: int] ! 0 < [4, 2] ! 0 \<and> [2, 0 :: int] ! 1 < [4, 2] ! 1"
proof -
  have e: "getRoiList 2 [(''x'', 4), (''c'', 2)] = Inr [([0, 0], [2, 2]), ([2, 0], [4, 2])]"
    by code_simp
  have m: "(([2, 0], [4, 2]) :: roi) \<in> set [([0, 0], [2, 2]), ([2, 0], [4, 2])]"
    by simp
  from rois_nonempty_extent[OF e m]
  have "length [2, 0 :: int] = length [(''x'', 4 :: nat), (''c'', 2)] \<and>
        length [4, 2 :: int] = length [(''x'', 4 :: nat), (''c'', 2)] \<and>
        [2, 0 :: int] ! 0 < [4, 2] ! 0 \<and> [2, 0 :: int] ! 1 < [4, 2] ! 1"
    by simp
  with e m show ?thesis by blast
qed

lemma getRoiList_grid:
  assumes "getRoiList J ts = Inr rois" "1 \<le> J"
  obtains sh rs where
    "length (inputShape ts) = length sh" "length rs = length sh"
    "\<forall>a<length sh. py_range (inputShape ts ! a) (sh ! a) = Inr (rs ! a)"
    "\<forall>a<length sh. 0 < sh ! a"
    "rois = map (roi_at (inputShape ts) sh) (product_lists rs)"
    "\<forall>a<length sh. 0 < inputShape ts ! a"
proof -
  from assms(1) obtain k sh rs where
    k: "numJobsPerSpaceDim J (length (spaceDims ts)) = Inr k"
    and sh: "roiShape_loop k (map fst (spaceDims ts)) ts = Inr sh"
    and rs: "ranges (zip (inputShape ts) sh) = Inr rs"
    and rois: "rois = map (roi_at (inputShape ts) sh) (product_lists rs)"
    by (rule getRoiList_Inr)
  have "1 \<le> k" using numJobsPerSpaceDim_pos[OF assms(2) k] .
  then have "\<forall>a<length sh. 0 < sh ! a" "\<forall>a<length sh. 0 < inputShape ts ! a"
    using grid_steps_pos[OF _ sh rs] by blast+
  then show thesis using that grid_lengths[OF sh rs] rois by blast
qed

lemma getRoiList_cover:
  assumes "getRoiList J ts = Inr rois" "1 \<le> J"
  shows "list_ex (in_roi p) rois \<longleftrightarrow> in_volume p (inputShape ts)"
proof -
  from assms obtain sh rs where g:
    "length (inputShape ts) = length sh" "length rs = length sh"
    "\<forall>a<length sh. py_range (inputShape ts ! a) (sh ! a) = Inr (rs ! a)"
    "\<forall>a<length sh. 0 < sh ! a"
    and rois: "rois = map (roi_at (inputShape ts) sh) (product_lists rs)"
    by (rule getRoiList_grid)
  have "list_ex (in_roi p) rois \<longleftrightarrow>
        (\<exists>idx\<in>set (product_lists rs). in_roi p (roi_at (inputShape ts) sh idx))"
    by (simp add: rois list_ex_iff)
  also have "\<dots> \<longleftrightarrow> (\<exists>idx\<in>set (product_lists rs). in_volume p (inputShape ts) \<and> idx = cell_start p sh)"
    using in_roi_cell[OF g] by blast
  also have "\<dots> \<longleftrightarrow> in_volume p (inputShape ts)"
    using cell_start_in_product[OF g] by blast
  finally show ?thesis .
qed

lemma getRoiList_disjoint:
  assumes "getRoiList J ts = Inr rois" "1 \<le> J"
    and "i < length rois" "j < length rois" "in_roi p (rois ! i)" "in_roi p (rois ! j)"
  shows "i = j"
proof -
  from assms(1,2) obtain sh rs where g:
    "length (inputShape ts) = length sh" "length rs = length sh"
    "\<forall>a<length sh. py_range (inputShape ts ! a) (sh ! a) = Inr (rs ! a)"
    "\<forall>a<length sh. 0 < sh ! a"
    and rois: "rois = map (roi_at (inputShape ts) sh) (product_lists rs)"
    by (rule getRoiList_grid)
  let ?pl = "product_lists rs"
  have ij: "i < length ?pl" "j < length ?pl" using assms(3,4) rois by simp_all
  have "?pl ! i = cell_start p sh"
    using in_roi_cell[OF g, of "?pl ! i" p] ij(1) assms(5) rois by simp
  moreover have "?pl ! j = cell_start p sh"
    using in_roi_cell[OF g, of "?pl ! j" p] ij(2) assms(6) rois by simp
  moreover have "distinct ?pl"
  proof (rule distinct_product_lists)
    show "\<forall>xs\<in>set rs. distinct xs"
      using g(2,3) py_range_distinct by (metis in_set_conv_nth)
  qed
  ultimately show "i = j" using ij by (metis nth_eq_iff_index_eq)
qed

lemma getRoiList_not_Nil:
  assumes "getRoiList J ts = Inr rois" "1 \<le> J"
  shows "rois \<noteq> []"
proof -
  from assms(1,2) obtain sh rs where g:
    "length (inputShape ts) = length sh" "length rs = length sh"
    "\<forall>a<length sh. py_range (inputShape ts ! a) (sh ! a) = Inr (rs ! a)"
    "\<forall>a<length sh. 0 < sh ! a"
    and rois: "rois = map (roi_at (inputShape ts) sh) (product_lists rs)"
    and dpos: "\<forall>a<length sh. 0 < inputShape ts ! a"
    by (rule getRoiList_grid)
  have "0 \<in> set (rs ! a)" if a: "a < length sh" for a
  proof -
    have "0 < inputShape ts ! a" using dpos a by simp
    then show ?thesis using py_range_pos_set[of "sh ! a" "inputShape ts ! a" "rs ! a" 0] g a by simp
  qed
  then have "replicate (length rs) 0 \<in> set (product_lists rs)"
    using g(2) by (simp add: product_lists_nth)
  then show ?thesis using rois by auto
qed

text \<open>
  Claim C1 does not hold for every shape and job count: with one axis x of extent 2 and 3
  jobs the block size is 2 div 3 = 0 and \<^verbatim>\<open>range\<close> raises ValueError, and for a shape
  without an axis x, y or z of extent above 1 the exponent \<^verbatim>\<open>1.0/len(spaceDims)\<close> raises
  ZeroDivisionError; no list is returned.
\<close>

theorem partition_raises_counterexample:
  "getRoiList 3 [(''x'', 2)] = Inl ValueError \<and>
   getRoiList 1 [(''c'', 3)] = Inl ZeroDivisionError"
  by code_simp

text \<open>
  Claim C1, amended. For every shape and every job count of at least 1 for which the
  partitioner returns a list, the list has at least one region, no point lies in two
  regions at different positions of the list, and a point lies in some region exactly
  when it lies in the volume of the input shape.
\<close>

theorem partition_tiles_volume:
  assumes "getRoiList J ts = Inr rois" "1 \<le> J"
  shows "rois \<noteq> [] \<and>
         (\<forall>i<length rois. \<forall>j<length rois. i \<noteq> j \<longrightarrow>
            (\<forall>p. \<not> (in_roi p (rois ! i) \<and> in_roi p (rois ! j)))) \<and>
         (\<forall>p. list_ex (in_roi p) rois = in_volume p (inputShape ts))"
  using getRoiList_not_Nil[OF assms] getRoiList_disjoint[OF assms] getRoiList_cover[OF assms]
  by blast

theorem partition_tiles_volume_witness:
  "getRoiList 2 [(''x'', 4), (''c'', 2)] = Inr [([0, 0], [2, 2]), ([2, 0], [4, 2])] \<and>
   (1 :: int) \<le> 2 \<and>
   ([([0, 0], [2, 2]), ([2, 0], [4, 2])] :: roi list) \<noteq> [] \<and>
   \<not> (in_roi [1, 1] ([([0, 0], [2, 2]), ([2, 0], [4, 2])] ! 0) \<and>
      in_roi [1, 1] ([([0, 0], [2, 2]), ([2, 0], [4, 2])] ! 1)) \<and>
   list_ex (in_roi [3, 1]) [([0, 0], [2, 2]), ([2, 0], [4, 2])] =
     in_volume [3, 1] (inputShape [(''x'', 4), (''c'', 2)])"
proof -
  have e: "getRoiList 2 [(''x'', 4), (''c'', 2)] = Inr [([0, 0], [2, 2]), ([2, 0], [4, 2])]"
    by code_simp
  have j: "(1 :: int) \<le> 2" by simp
  note t = partition_tiles_volume[OF e j]
  from t have n: "([([0, 0], [2, 2]), ([2, 0], [4, 2])] :: roi list) \<noteq> []"
    by (rule conjunct1)
  from t have d: "\<not> (in_roi [1, 1] ([([0, 0], [2, 2]), ([2, 0], [4, 2])] ! 0) \<and>
      in_roi [1, 1] ([([0, 0], [2, 2]), ([2, 0], [4, 2])] ! 1))"
    by (simp add: in_roi_def)
  from t have c: "list_ex (in_roi [3, 1]) [([0, 0], [2, 2]), ([2, 0], [4, 2])] =
     in_volume [3, 1] (inputShape [(''x'', 4), (''c'', 2)])"
    by blast
  from e j n d c show ?thesis by blast
qed

lemma scenario_A_eval:
  "getRoiList 8 [(''x'', 100), (''y'', 100), (''z'', 30)] =
     Inr [([0, 0, 0], [50, 50, 15]), ([0, 0, 15], [50, 50, 30]),
          ([0, 50, 0], [50, 100, 15]), ([0, 50, 15], [50, 100, 30]),
          ([50, 0, 0], [100, 50, 15]), ([50, 0, 15], [100, 50, 30]),
          ([50, 50, 0], [100, 100, 15]), ([50, 50, 15], [100, 100, 30])]"
  by code_simp

text \<open>
  Claim C9 (scenario A). For the shape x:100, y:100, z:30 and 8 jobs the partitioner
  returns exactly 8 regions, each of extent 50, 50, 15, and a point lies in one of them
  exactly when it lies in the volume 100 by 100 by 30.
\<close>

theorem scenario_A:
  "\<exists>rois. getRoiList 8 [(''x'', 100), (''y'', 100), (''z'', 30)] = Inr rois \<and>
     length rois = 8 \<and>
     map (\<lambda>(start, stop). map2 (-) stop start) rois = replicate 8 [50, 50, 15] \<and>
     (\<forall>p. list_ex (in_roi p) rois = in_volume p [100, 100, 30])"
proof -
  let ?ts = "[(''x'', 100), (''y'', 100), (''z'', 30)] :: tagged_shape"
  obtain rois where r: "getRoiList 8 ?ts = Inr rois" using scenario_A_eval by blast
  have "\<forall>p. list_ex (in_roi p) rois = in_volume p (inputShape ?ts)"
    using getRoiList_cover[OF r] by simp
  moreover have "inputShape ?ts = [100, 100, 30]" by (simp add: inputShape_def)
  moreover have "length rois = 8"
    "map (\<lambda>(start, stop). map2 (-) stop start) rois = replicate 8 [50, 50, 15]"
    using r unfolding scenario_A_eval by (auto simp: numeral_eq_Suc)
  ultimately show ?thesis using r by auto
qed

lemma roiShape_loop_zero:
  "\<exists>x\<in>set ts. fst x \<in> set keys \<Longrightarrow> roiShape_loop 0 keys ts = Inl ZeroDivisionError"
proof (induction ts)
  case Nil
  then show ?case by simp
next
  case (Cons x ts)
  obtain key dim where x: "x = (key, dim)" by (cases x)
  show ?case
  proof (cases "key \<in> set keys")
    case True
    then show ?thesis by (simp add: x)
  next
    case False
    with Cons.prems x have "\<exists>x\<in>set ts. fst x \<in> set keys" by auto
    then have "roiShape_loop 0 keys ts = Inl ZeroDivisionError" by (rule Cons.IH)
    then show ?thesis using False by (simp add: x)
  qed
qed

lemma roiShape_loop_total:
  "k \<noteq> 0 \<Longrightarrow> \<exists>sh. roiShape_loop k keys ts = Inr sh"
proof (induction ts)
  case Nil
  then show ?case by simp
next
  case (Cons x ts)
  then obtain sh where "roiShape_loop k keys ts = Inr sh" by blast
  then show ?case using Cons.prems by (cases x) simp
qed

lemma py_range_cases:
  "py_range stop step = Inl ValueError \<and> step = 0 \<or> (\<exists>r. py_range stop step = Inr r) \<and> step \<noteq> 0"
  by (simp add: py_range_def)

lemma ranges_zero_step:
  "\<exists>z\<in>set zs. snd z = 0 \<Longrightarrow> ranges zs = Inl ValueError"
proof (induction zs)
  case Nil
  then show ?case by simp
next
  case (Cons z zs)
  obtain stop step where z: "z = (stop, step)" by (cases z)
  show ?case
  proof (cases "step = 0")
    case True
    then show ?thesis by (simp add: z py_range_def)
  next
    case False
    with Cons.prems z have "\<exists>z\<in>set zs. snd z = 0" by auto
    then have "ranges zs = Inl ValueError" by (rule Cons.IH)
    moreover obtain r where "py_range stop step = Inr r" using py_range_cases[of stop step] False by auto
    ultimately show ?thesis by (simp add: z)
  qed
qed

lemma ranges_total:
  "\<forall>z\<in>set zs. snd z \<noteq> 0 \<Longrightarrow> \<exists>rs. ranges zs = Inr rs"
proof (induction zs)
  case Nil
  then show ?case by simp
next
  case (Cons z zs)
  obtain stop step where z: "z = (stop, step)" by (cases z)
  from Cons obtain rs where "ranges zs = Inr rs" by auto
  moreover obtain r where "py_range stop step = Inr r"
    using py_range_cases[of stop step] Cons.prems z by auto
  ultimately show ?case by (simp add: z)
qed

lemma product_lists_Nil: "[] \<in> set rs \<Longrightarrow> product_lists rs = []"
  by (induction rs) auto

lemma nearest_root_0: "nearest_root 0 S = 0"
  by (simp add: nearest_root_def)

lemma spaceDims_key:
  assumes "spaceDims ts \<noteq> []"
  obtains a where "a < length ts" "fst (ts ! a) \<in> set (map fst (spaceDims ts))" "1 < snd (ts ! a)"
proof -
  from assms obtain x where x: "x \<in> set (spaceDims ts)" by (cases "spaceDims ts") auto
  then have "x \<in> set ts" "1 < snd x" by (auto simp: spaceDims_def)
  then obtain a where "a < length ts" "ts ! a = x" by (auto simp: in_set_conv_nth)
  then show thesis using that x \<open>1 < snd x\<close> by force
qed


text \<open>
  Claim C8 does not hold: there is no fall-back to a single region. With 0 jobs the
  extent of the first space dimension is divided by zero, and without an axis x, y or z of
  extent above 1 the exponent \<^verbatim>\<open>1.0/len(spaceDims)\<close> is a division by zero.
\<close>

theorem no_fallback_counterexample:
  "getRoiList 0 [(''x'', 4)] = Inl ZeroDivisionError \<and>
   getRoiList 1 [(''x'', 1), (''c'', 3)] = Inl ZeroDivisionError"
  by code_simp

text \<open>
  Claim C8, amended. If the job count is not positive, or the shape has no axis x, y or z
  of extent above 1, the partitioner returns no region: it raises ZeroDivisionError when
  there is no such axis or the job count is 0; for a negative job count it raises
  ValueError when there are two or more such axes or some extent is 0, and returns the
  empty list otherwise.
\<close>

theorem no_fallback_region:
  assumes "J \<le> 0 \<or> spaceDims ts = []"
  shows "getRoiList J ts =
     (if spaceDims ts = [] \<or> J = 0 then Inl ZeroDivisionError
      else if 2 \<le> length (spaceDims ts) then Inl ValueError
      else if list_ex (\<lambda>(key, dim). dim = 0) ts then Inl ValueError
      else Inr [])"
proof -
  let ?S = "length (spaceDims ts)"
  let ?keys = "map fst (spaceDims ts)"
  consider (none) "spaceDims ts = []" | (zero) "spaceDims ts \<noteq> []" "J = 0"
    | (many) "J < 0" "2 \<le> ?S" | (one) "J < 0" "?S = 1"
  proof -
    assume c: "spaceDims ts = [] \<Longrightarrow> thesis" "\<lbrakk>spaceDims ts \<noteq> []; J = 0\<rbrakk> \<Longrightarrow> thesis"
      "\<lbrakk>J < 0; 2 \<le> ?S\<rbrakk> \<Longrightarrow> thesis" "\<lbrakk>J < 0; ?S = 1\<rbrakk> \<Longrightarrow> thesis"
    show thesis
    proof (cases "spaceDims ts = []")
      case True
      then show ?thesis by (rule c(1))
    next
      case False
      then have "1 \<le> ?S" by (cases "spaceDims ts") auto
      moreover have "J \<le> 0" using assms False by simp
      ultimately show ?thesis using c(2)[OF False] c(3) c(4) by (cases "J = 0"; cases "?S = 1") auto
    qed
  qed
  then show ?thesis
  proof cases
    case none
    then show ?thesis by (simp add: getRoiList_def numJobsPerSpaceDim_def)
  next
    case zero
    then have "numJobsPerSpaceDim J ?S = Inr 0"
      by (simp add: numJobsPerSpaceDim_def nearest_root_0)
    moreover have "roiShape_loop 0 ?keys ts = Inl ZeroDivisionError"
      using spaceDims_key[OF zero(1)] by (metis roiShape_loop_zero nth_mem)
    ultimately show ?thesis using zero by (simp add: getRoiList_def)
  next
    case many
    have "spaceDims ts \<noteq> []" using many(2) by auto
    moreover have "numJobsPerSpaceDim J ?S = Inl ValueError"
      using many by (auto simp: numJobsPerSpaceDim_def)
    moreover have "J \<noteq> 0" using many(1) by simp
    ultimately show ?thesis using many by (simp add: getRoiList_def)
  next
    case one
    then have k: "numJobsPerSpaceDim J ?S = Inr J" by (simp add: numJobsPerSpaceDim_def)
    obtain sh where sh: "roiShape_loop J ?keys ts = Inr sh"
      using roiShape_loop_total[of J] one(1) by auto
    note shn = roiShape_loop_Inr[OF sh]
    have neg: "int d div J < 0" if "0 < d" for d :: nat
      using that one(1) by (simp add: neg_imp_zdiv_neg_iff)
    have z: "sh ! a = 0 \<longleftrightarrow> snd (ts ! a) = 0" if "a < length ts" for a
      using shn that neg[of "snd (ts ! a)"] by (cases "snd (ts ! a) = 0") auto
    have ne: "spaceDims ts \<noteq> []" "J \<noteq> 0" "\<not> 2 \<le> ?S" using one by auto
    show ?thesis
    proof (cases "list_ex (\<lambda>(key, dim). dim = 0) ts")
      case True
      then obtain a where a: "a < length ts" "snd (ts ! a) = 0"
        by (auto simp: list_ex_iff in_set_conv_nth)
      then have "sh ! a = 0" using z by simp
      moreover have "a < length (zip (inputShape ts) sh)"
        using a shn by (simp add: inputShape_nth)
      then have "zip (inputShape ts) sh ! a \<in> set (zip (inputShape ts) sh)" by (rule nth_mem)
      then have "(inputShape ts ! a, sh ! a) \<in> set (zip (inputShape ts) sh)"
        using a shn by (simp add: inputShape_nth)
      ultimately have "(inputShape ts ! a, sh ! a) \<in> set (zip (inputShape ts) sh)" "sh ! a = 0"
        by simp_all
      then have "ranges (zip (inputShape ts) sh) = Inl ValueError"
        using ranges_zero_step by force
      then show ?thesis using True ne k sh by (simp add: getRoiList_def)
    next
      case False
      then have "\<forall>x\<in>set ts. snd x \<noteq> 0"
        by (simp add: list_ex_iff case_prod_unfold)
      then have nz: "snd (ts ! a) \<noteq> 0" if "a < length ts" for a
        using that nth_mem by blast
      have "snd zz \<noteq> 0" if "zz \<in> set (zip (inputShape ts) sh)" for zz
      proof -
        from that obtain n where n: "sh ! n = snd zz" "n < length sh"
          unfolding in_set_zip by blast
        then have "n < length ts" using shn by simp
        then show ?thesis using z[of n] nz[of n] n by simp
      qed
      then obtain rs where rs: "ranges (zip (inputShape ts) sh) = Inr rs"
        using ranges_total by blast
      note g = grid_lengths[OF sh rs]
      obtain a where a: "a < length ts" "fst (ts ! a) \<in> set ?keys" "1 < snd (ts ! a)"
        using spaceDims_key[OF ne(1)] by blast
      have "sh ! a < 0" using shn a neg[of "snd (ts ! a)"] by simp
      then have "rs ! a = []"
        using py_range_neg_empty[of "sh ! a" "inputShape ts ! a" "rs ! a"] g a
        by (simp add: inputShape_nth)
      then have "[] \<in> set rs" using a g by (metis nth_mem)
      then have "product_lists rs = []" by (rule product_lists_Nil)
      then show ?thesis using False ne k sh rs by (simp add: getRoiList_def)
    qed
  qed
qed

theorem no_fallback_region_witness:
  "((-1 :: int) \<le> 0 \<or> spaceDims [(''x'', 4)] = []) \<and> getRoiList (-1) [(''x'', 4)] = Inr []"
proof -
  have h: "(-1 :: int) \<le> 0 \<or> spaceDims [(''x'', 4)] = []" by simp
  have "getRoiList (-1) [(''x'', 4)] = Inr []"
    using no_fallback_region[OF h] by (simp add: spaceDims_def str_in_def)
  with h show ?thesis by (rule conjI)
qed

section \<open>Properties of the worker\<close>

lemma os_path_join_last: "b \<noteq> [] \<Longrightarrow> last (os_path_join a b) = last b"
  by (auto simp: os_path_join_def)

lemma status_output_paths_differ: "w_statusFilePath w \<noteq> w_outputFilePath w"
proof
  assume "w_statusFilePath w = w_outputFilePath w"
  then have "last (w_statusFilePath w) = last (w_outputFilePath w)" by simp
  then show False
    by (simp add: w_statusFilePath_def w_outputFilePath_def os_path_join_last
        STATUS_FILE_NAME_def OUTPUT_FILE_NAME_def)
qed

lemma worker_trace_cases:
  assumes "OpTaskWorker_execute w fs = (trace, res)" "s \<in> set trace"
  shows "(\<exists>i. s = fs(tmpOutputFile w \<mapsto> Incomplete i)) \<or>
         (\<exists>val f. snd (WriteImage w) = Inr (val, f) \<and>
            (s = fs(tmpOutputFile w \<mapsto> H5 f) \<or>
             (\<exists>i. s = fs(tmpOutputFile w \<mapsto> H5 f, w_outputFilePath w \<mapsto> Incomplete i)) \<or>
             s = fs(tmpOutputFile w \<mapsto> H5 f, w_outputFilePath w \<mapsto> H5 f) \<or>
             (\<exists>c. s = fs(tmpOutputFile w \<mapsto> H5 f, w_outputFilePath w \<mapsto> H5 f,
                          w_statusFilePath w \<mapsto> Text c))))"
  using assms
  by (auto simp: OpTaskWorker_execute_def copyfile_def Let_def
      split: sum.splits prod.splits if_splits)

text \<open>
  Claim C4. Take any execution of the worker whose temporary file is neither its output
  file nor its status file, and any point of it. If the output path differs from what it
  was before the worker ran, the writer has finished and the temporary file holds the
  complete result: the copy starts after the write. If the status path differs from what
  it was before the worker ran, the temporary file and the output path both hold the
  complete result: the status file is written after the copy is complete, so a status
  file that was not there before exists only with a complete output. And a worker that
  returns has left the complete result at the output path and \<^verbatim>\<open>'Yay!'\<close> in the status
  file.
\<close>

theorem marker_after_complete_copy:
  assumes "tmpOutputFile w \<noteq> w_outputFilePath w" "tmpOutputFile w \<noteq> w_statusFilePath w"
    and "OpTaskWorker_execute w fs = (trace, res)" "s \<in> set trace"
  shows "(s (w_outputFilePath w) \<noteq> fs (w_outputFilePath w) \<longrightarrow>
            (\<exists>val f. snd (WriteImage w) = Inr (val, f) \<and> s (tmpOutputFile w) = Some (H5 f))) \<and>
         (s (w_statusFilePath w) \<noteq> fs (w_statusFilePath w) \<longrightarrow>
            (\<exists>val f. snd (WriteImage w) = Inr (val, f) \<and> s (tmpOutputFile w) = Some (H5 f) \<and>
               s (w_outputFilePath w) = Some (H5 f))) \<and>
         (\<forall>val. res = Inr val \<longrightarrow>
            (\<exists>f. snd (WriteImage w) = Inr (val, f) \<and>
               last trace = fs(tmpOutputFile w \<mapsto> H5 f, w_outputFilePath w \<mapsto> H5 f,
                               w_statusFilePath w \<mapsto> Text ''Yay!'')))"
proof (intro conjI)
  note d = status_output_paths_differ[of w] assms(1,2)
  note c = worker_trace_cases[OF assms(3,4)]
  show "s (w_outputFilePath w) \<noteq> fs (w_outputFilePath w) \<longrightarrow>
            (\<exists>val f. snd (WriteImage w) = Inr (val, f) \<and> s (tmpOutputFile w) = Some (H5 f))"
    using c d by auto
  show "s (w_statusFilePath w) \<noteq> fs (w_statusFilePath w) \<longrightarrow>
            (\<exists>val f. snd (WriteImage w) = Inr (val, f) \<and> s (tmpOutputFile w) = Some (H5 f) \<and>
               s (w_outputFilePath w) = Some (H5 f))"
    using c d by auto
  show "\<forall>val. res = Inr val \<longrightarrow>
            (\<exists>f. snd (WriteImage w) = Inr (val, f) \<and>
               last trace = fs(tmpOutputFile w \<mapsto> H5 f, w_outputFilePath w \<mapsto> H5 f,
                               w_statusFilePath w \<mapsto> Text ''Yay!''))"
    using assms(1,3)
    by (auto simp: OpTaskWorker_execute_def copyfile_def Let_def
        split: sum.splits prod.splits if_splits)
qed

lemma worker_success:
  assumes "tmpOutputFile w \<noteq> w_outputFilePath w" "snd (WriteImage w) = Inr (val, f)"
  shows "snd (OpTaskWorker_execute w fs) = Inr val" "fst (OpTaskWorker_execute w fs) \<noteq> []"
  using assms by (simp_all add: OpTaskWorker_execute_def copyfile_def Let_def)

lemma example_worker_paths:
  "tmpOutputFile example_worker = ''/tmp/tmpQ1/roi0.h5''"
  "w_outputFilePath example_worker = ''/scratch/TASK_0 output ((0, 0), (2, 2)).h5''"
  "w_statusFilePath example_worker = ''/scratch/TASK_0 status ((0, 0), (2, 2)).txt''"
  by code_simp+

theorem marker_after_complete_copy_witness:
  "tmpOutputFile example_worker \<noteq> w_outputFilePath example_worker \<and>
   tmpOutputFile example_worker \<noteq> w_statusFilePath example_worker \<and>
   last (fst (OpTaskWorker_execute example_worker Map.empty))
     \<in> set (fst (OpTaskWorker_execute example_worker Map.empty)) \<and>
   last (fst (OpTaskWorker_execute example_worker Map.empty)) (w_statusFilePath example_worker)
     \<noteq> (Map.empty :: nat fs) (w_statusFilePath example_worker) \<and>
   last (fst (OpTaskWorker_execute example_worker Map.empty)) (w_outputFilePath example_worker)
     = Some (H5 example_result)"
proof -
  let ?t = "fst (OpTaskWorker_execute example_worker (Map.empty :: nat fs))"
  let ?r = "snd (OpTaskWorker_execute example_worker (Map.empty :: nat fs))"
  have p1: "tmpOutputFile example_worker \<noteq> w_outputFilePath example_worker"
    and p2: "tmpOutputFile example_worker \<noteq> w_statusFilePath example_worker"
    by (simp_all add: example_worker_paths)
  have e: "OpTaskWorker_execute example_worker Map.empty = (?t, ?r)" by simp
  have wi: "snd (WriteImage example_worker) = Inr (True, example_result)"
    by (simp add: example_worker_def)
  have r: "?r = Inr True" and ne: "?t \<noteq> []"
    using worker_success[OF p1 wi] by simp_all
  then have m: "last ?t \<in> set ?t" by simp
  note t = marker_after_complete_copy[OF p1 p2 e m]
  from t have "\<forall>val. ?r = Inr val \<longrightarrow>
            (\<exists>f. snd (WriteImage example_worker) = Inr (val, f) \<and>
               last ?t = Map.empty(tmpOutputFile example_worker \<mapsto> H5 f,
                 w_outputFilePath example_worker \<mapsto> H5 f,
                 w_statusFilePath example_worker \<mapsto> Text ''Yay!''))"
    by (elim conjE)
  with r obtain f where f: "snd (WriteImage example_worker) = Inr (True, f)"
    "last ?t = Map.empty(tmpOutputFile example_worker \<mapsto> H5 f,
                 w_outputFilePath example_worker \<mapsto> H5 f,
                 w_statusFilePath example_worker \<mapsto> Text ''Yay!'')"
    by blast
  have s: "last ?t (w_statusFilePath example_worker) \<noteq> (Map.empty :: nat fs) (w_statusFilePath example_worker)"
    unfolding f(2) by simp
  from f(1) wi have "f = example_result" by simp
  then have o: "last ?t (w_outputFilePath example_worker) = Some (H5 example_result)"
    unfolding f(2) using status_output_paths_differ[of example_worker] by simp
  from p1 p2 m s o show ?thesis by blast
qed



section \<open>Properties of the master\<close>

subsection \<open>Task preparation\<close>

lemma prepare_loop_no_args:
  assumes "\<not> str_in ''{args}'' (CommandFormat cfg)" "rs \<noteq> []"
  shows "prepare_loop cfg rs tis fs = (Inl AssertionError, fs)"
proof (cases rs)
  case Nil
  with assms(2) show ?thesis by simp
next
  case (Cons x rest)
  obtain i roi where "x = (i, roi)" by (cases x)
  with Cons assms(1) show ?thesis by (simp add: prepare_one_def)
qed

lemma prepareTaskInfos_no_args:
  assumes "\<not> str_in ''{args}'' (CommandFormat cfg)"
    and "getRoiList (NumJobs cfg) (Input_taggedShape cfg) \<noteq> Inr []"
  shows "prepareTaskInfos cfg fs =
     (Inl (case getRoiList (NumJobs cfg) (Input_taggedShape cfg) of
             Inl e \<Rightarrow> e | Inr rois \<Rightarrow> AssertionError), fs)"
proof (cases "getRoiList (NumJobs cfg) (Input_taggedShape cfg)")
  case (Inl e)
  then show ?thesis by (simp add: prepareTaskInfos_def)
next
  case (Inr rois)
  with assms(2) have "rois \<noteq> []" by simp
  then have z: "zip [0..<length rois] rois \<noteq> []" by (cases rois) (simp_all add: upt_rec)
  show ?thesis
    using prepare_loop_no_args[OF assms(1) z, of "[]" fs] Inr
    by (simp add: prepareTaskInfos_def)
qed

text \<open>
  Claim C3 does not hold for every run: the command format is checked in the loop over the
  regions, so when the partitioner returns no region (a job count of -1 and one splittable
  axis) a command format without \<^verbatim>\<open>{args}\<close> is never looked at, and the run returns success
  with nothing spawned and nothing deleted.
\<close>

theorem placeholder_counterexample:
  "\<not> str_in ''{args}'' (CommandFormat no_region_config) \<and>
   execute no_region_config 0 [] (Map.empty :: nat fs) =
     ([], \<lparr>result = Some (Inr True), active = [], files = Map.empty, unread = []\<rparr>)"
  by (simp add: execute_def prepareTaskInfos_def no_region_config_def scenario_D_config_def
        str_in_def getRoiList_def spaceDims_def numJobsPerSpaceDim_def inputShape_def
        py_range_def)

text \<open>
  Claim C3, amended. If the command format does not contain \<^verbatim>\<open>{args}\<close> and the partitioner
  does not return the empty list (it never does for a job count of at least 1, see
  \<open>getRoiList_not_Nil\<close>), the run is rejected during task preparation: \<^verbatim>\<open>execute\<close> raises
  the partitioner's exception, or AssertionError at the first region, with no command
  spawned, no pass of the polling loop, and the files as they were before.
\<close>

theorem missing_placeholder_rejected:
  assumes "\<not> str_in ''{args}'' (CommandFormat cfg)"
    and "getRoiList (NumJobs cfg) (Input_taggedShape cfg) \<noteq> Inr []"
  shows "execute cfg start ticks fs =
     ([], \<lparr>result = Some (Inl (case getRoiList (NumJobs cfg) (Input_taggedShape cfg) of
                                   Inl e \<Rightarrow> e | Inr rois \<Rightarrow> AssertionError)),
           active = [], files = fs, unread = ticks\<rparr>)"
  using prepareTaskInfos_no_args[OF assms, of fs] by (simp add: execute_def)

lemma scenario_D_rois:
  "getRoiList 2 [(''x'', 4), (''c'', 2)] = Inr [([0, 0], [2, 2]), ([2, 0], [4, 2])]"
  by code_simp

theorem missing_placeholder_rejected_witness:
  "\<not> str_in ''{args}'' (CommandFormat no_placeholder_config) \<and>
   getRoiList (NumJobs no_placeholder_config) (Input_taggedShape no_placeholder_config) \<noteq> Inr [] \<and>
   execute no_placeholder_config 0 [] stale_files =
     ([], \<lparr>result = Some (Inl AssertionError), active = [], files = stale_files, unread = []\<rparr>)"
proof -
  have h1: "\<not> str_in ''{args}'' (CommandFormat no_placeholder_config)"
    by (simp add: no_placeholder_config_def scenario_D_config_def str_in_def)
  have g: "getRoiList (NumJobs no_placeholder_config) (Input_taggedShape no_placeholder_config) =
      Inr [([0, 0], [2, 2]), ([2, 0], [4, 2])]"
    by (simp add: no_placeholder_config_def scenario_D_config_def scenario_D_rois)
  then have h2: "getRoiList (NumJobs no_placeholder_config)
      (Input_taggedShape no_placeholder_config) \<noteq> Inr []" by simp
  from missing_placeholder_rejected[OF h1 h2, of 0 "[]" stale_files] g
  have "execute no_placeholder_config 0 [] stale_files =
     ([], \<lparr>result = Some (Inl AssertionError), active = [], files = stale_files, unread = []\<rparr>)"
    by simp
  with h1 h2 show ?thesis by blast
qed

subsection \<open>A run that is still polling\<close>

text \<open>
  When the observations of a run end while tasks are left, the result is \<open>None\<close>; the run
  then goes on with the next observations from the dictionary and the files it has
  reached.
\<close>

lemma poll_loop_resume:
  assumes "result (poll_loop cfg tm pre tis0 s0 fs0) = None"
  shows "length (active (poll_loop cfg tm pre tis0 s0 fs0)) > 0 \<and>
         (\<exists>s1. \<forall>more. poll_loop cfg tm (pre @ more) tis0 s0 fs0 =
            poll_loop cfg tm more (active (poll_loop cfg tm pre tis0 s0 fs0)) s1
              (files (poll_loop cfg tm pre tis0 s0 fs0)))"
  using assms
proof (induction pre arbitrary: tis0 s0 fs0)
  case Nil
  then have "length tis0 > 0" by (simp split: if_splits)
  then show ?case by auto
next
  case (Cons p pre)
  show ?case
  proof (cases "length tis0 > 0")
    case False
    with Cons.prems show ?thesis by simp
  next
    case True
    show ?thesis
    proof (cases "poll_step cfg tm p tis0 s0 fs0")
      case (Pair r fs')
      show ?thesis
      proof (cases r)
        case (Inl e)
        with Pair True Cons.prems show ?thesis by simp
      next
        case (Inr x)
        obtain tis' s' where x: "x = (tis', s')" by (cases x)
        have eq: "poll_loop cfg tm ((p # pre) @ more) tis0 s0 fs0 =
            poll_loop cfg tm (pre @ more) tis' s' fs'" for more
          using True Pair Inr x by simp
        from eq[of "[]"] have here: "poll_loop cfg tm (p # pre) tis0 s0 fs0 =
            poll_loop cfg tm pre tis' s' fs'" by simp
        with Cons.prems have "result (poll_loop cfg tm pre tis' s' fs') = None" by simp
        from Cons.IH[OF this] show ?thesis unfolding here eq .
      qed
    qed
  qed
qed

lemma execute_resume:
  assumes "result (snd (execute cfg start pre fs0)) = None"
  shows "length (active (snd (execute cfg start pre fs0))) > 0 \<and>
         (\<exists>s1. \<forall>more. execute cfg start (pre @ more) fs0 =
            (fst (execute cfg start pre fs0),
             poll_loop cfg \<lparr>startTime = Some start, stopTime = None\<rparr> more
               (active (snd (execute cfg start pre fs0))) s1
               (files (snd (execute cfg start pre fs0)))))"
proof (cases "prepareTaskInfos cfg fs0")
  case (Pair r fs)
  show ?thesis
  proof (cases r)
    case (Inl e)
    with Pair assms show ?thesis by (simp add: execute_def)
  next
    case (Inr tis)
    let ?tm = "\<lparr>startTime = Some start, stopTime = None\<rparr>"
    have ex: "execute cfg start ticks fs0 =
        (map (\<lambda>(roi, taskInfo). command taskInfo) tis, poll_loop cfg ?tm ticks tis True fs)"
      for ticks :: "'a tick list"
      using Pair Inr by (simp add: execute_def)
    from assms have "result (poll_loop cfg ?tm pre tis True fs) = None" by (simp add: ex)
    from poll_loop_resume[OF this] show ?thesis by (simp add: ex)
  qed
qed

subsection \<open>The timeout\<close>

lemma timedelta_seconds_day:
  assumes "0 \<le> us" "us < 86400 * 1000000"
  shows "timedelta_seconds us = us div 1000000"
proof -
  have "0 \<le> us div 1000000" using assms(1) by (simp add: pos_imp_zdiv_nonneg_iff)
  moreover have "us div 1000000 < 86400" using assms(2) by linarith
  ultimately show ?thesis by (simp add: timedelta_seconds_def)
qed

lemma timeout_reading:
  assumes "T * 1000000 \<le> us" "us < 86400 * 1000000"
  shows "T \<le> timedelta_seconds us"
proof (cases "0 \<le> us")
  case True
  have "(T * 1000000) div 1000000 \<le> us div 1000000" using assms(1) by (rule zdiv_mono1) simp
  then have "T \<le> us div 1000000" by simp
  then show ?thesis using timedelta_seconds_day[OF True assms(2)] by simp
next
  case False
  then have "T < 0" using assms(1) by linarith
  moreover have "0 \<le> timedelta_seconds us" by (simp add: timedelta_seconds_def)
  ultimately show ?thesis by linarith
qed

lemma poll_loop_timeout:
  assumes "length tis > 0"
    and "TaskTimeoutSeconds cfg * 1000000 \<le> now t - start" "now t - start < 86400 * 1000000"
  shows "poll_loop cfg \<lparr>startTime = Some start, stopTime = None\<rparr> (t # rest) tis success fs =
     \<lparr>result = Some (Inr False), active = tis, files = fs, unread = rest\<rparr>"
  using timeout_reading[OF assms(2,3)] assms(1) by (simp add: poll_step_def seconds_def)

text \<open>
  Claim C2 does not hold as stated. The time is checked at the head of each pass, before
  the sleep: with a timeout of one polling interval (15 seconds) and no job completing,
  the first check comes at once and does not stop the loop, which is still polling when
  the observations of one pass end; the run returns failure at the second check. And the
  timer reads the seconds field of the elapsed time, which starts again at 0 after a day:
  with a timeout of 86400 seconds, a check at exactly one day does not stop the loop.
\<close>

theorem timeout_counterexample:
  "result (snd (execute scenario_D_config 0 [first_check] Map.empty)) = None \<and>
   result (snd (execute scenario_D_config 0 [first_check, second_check] Map.empty)) =
     Some (Inr False) \<and>
   unread (snd (execute scenario_D_config 0 [first_check, second_check] Map.empty)) = [] \<and>
   result (snd (execute one_day_config 0 [day_check] Map.empty)) = None"
  by code_simp

text \<open>
  Claim C2, amended. For every timeout \<open>T\<close> and every run that is still polling after some
  passes (tasks are left in the dictionary), if the next pass checks the time with at
  least \<open>T\<close> seconds and less than a day elapsed since the timer started, the loop stops
  there and \<^verbatim>\<open>execute\<close> returns \<^verbatim>\<open>False\<close>: the tasks left are all still in the dictionary,
  the files are as they were, and no later observation is read. With a timeout of one
  polling interval and no job completing, that is the second check of the run (see the
  witness).
\<close>

theorem timeout_check_stops_polling:
  assumes "result (snd (execute cfg start pre fs0)) = None"
    and "TaskTimeoutSeconds cfg * 1000000 \<le> now t - start" "now t - start < 86400 * 1000000"
  shows "length (active (snd (execute cfg start pre fs0))) > 0 \<and>
         execute cfg start (pre @ t # rest) fs0 =
           (fst (execute cfg start pre fs0),
            \<lparr>result = Some (Inr False), active = active (snd (execute cfg start pre fs0)),
             files = files (snd (execute cfg start pre fs0)), unread = rest\<rparr>)"
proof -
  from execute_resume[OF assms(1)] obtain s1 where
    len: "length (active (snd (execute cfg start pre fs0))) > 0"
    and go: "execute cfg start (pre @ t # rest) fs0 =
            (fst (execute cfg start pre fs0),
             poll_loop cfg \<lparr>startTime = Some start, stopTime = None\<rparr> (t # rest)
               (active (snd (execute cfg start pre fs0))) s1
               (files (snd (execute cfg start pre fs0))))"
    by blast
  show ?thesis using len go poll_loop_timeout[OF len assms(2,3)] by simp
qed

theorem timeout_check_stops_polling_witness:
  "result (snd (execute scenario_D_config 0 [first_check] Map.empty)) = None \<and>
   TaskTimeoutSeconds scenario_D_config * 1000000 \<le> now second_check - 0 \<and>
   now second_check - 0 < 86400 * 1000000 \<and>
   result (snd (execute scenario_D_config 0 ([first_check] @ second_check # []) Map.empty)) =
     Some (Inr False) \<and>
   map fst (active (snd (execute scenario_D_config 0 ([first_check] @ second_check # [])
                            Map.empty))) = [([0, 0], [2, 2]), ([2, 0], [4, 2])] \<and>
   unread (snd (execute scenario_D_config 0 ([first_check] @ second_check # []) Map.empty)) = []"
proof -
  have a: "result (snd (execute scenario_D_config 0 [first_check] Map.empty)) = None"
    by code_simp
  have b: "TaskTimeoutSeconds scenario_D_config * 1000000 \<le> now second_check - 0"
    by (simp add: scenario_D_config_def second_check_def)
  have c: "now second_check - 0 < 86400 * 1000000" by (simp add: second_check_def)
  have k: "map fst (active (snd (execute scenario_D_config 0 [first_check] Map.empty))) =
      [([0, 0], [2, 2]), ([2, 0], [4, 2])]"
    by code_simp
  note t = timeout_check_stops_polling[OF a b c, of "[]"]
  from t have "snd (execute scenario_D_config 0 ([first_check] @ second_check # []) Map.empty) =
      \<lparr>result = Some (Inr False),
       active = active (snd (execute scenario_D_config 0 [first_check] Map.empty)),
       files = files (snd (execute scenario_D_config 0 [first_check] Map.empty)),
       unread = []\<rparr>"
    by simp
  with k have
    "result (snd (execute scenario_D_config 0 ([first_check] @ second_check # []) Map.empty)) =
       Some (Inr False)"
    "map fst (active (snd (execute scenario_D_config 0 ([first_check] @ second_check # [])
                            Map.empty))) = [([0, 0], [2, 2]), ([2, 0], [4, 2])]"
    "unread (snd (execute scenario_D_config 0 ([first_check] @ second_check # []) Map.empty)) = []"
    by simp_all
  with a b c show ?thesis by blast
qed

subsection \<open>Aggregation\<close>

lemma copy_loop_idle:
  assumes "\<forall>x\<in>set tis. fs (statusFilePath (snd x)) = None"
  shows "copy_loop cfg tis fin opened fs = (Inr fin, fs)"
  using assms
proof (induction tis)
  case Nil
  then show ?case by simp
next
  case (Cons x tis)
  obtain roi ti where x: "x = (roi, ti)" by (cases x)
  with Cons.prems have "copy_one cfg roi ti opened fs = (Inr False, fs)"
    by (simp add: copy_one_def)
  then show ?case using Cons x by simp
qed

lemma open_destination_frame:
  assumes "open_destination cfg fs = Inr fs1"
  shows "(\<forall>p. p \<noteq> OutputFilePath cfg \<longrightarrow> fs1 p = fs p) \<and>
         (\<exists>g'. fs1 (OutputFilePath cfg) = Some (H5 g') \<and>
            (\<forall>n. n \<noteq> ''cluster_result'' \<longrightarrow>
               g' n = (case fs (OutputFilePath cfg) of Some (H5 g) \<Rightarrow> g n | _ \<Rightarrow> None)))"
  using assms
  by (auto simp: open_destination_def Let_def split: option.splits content.splits if_splits)

lemma write_result_frame:
  assumes "write_result cfg key src fs = Inr fs1"
  shows "(\<forall>p. p \<noteq> OutputFilePath cfg \<longrightarrow> fs1 p = fs p) \<and>
         (\<exists>g g'. fs (OutputFilePath cfg) = Some (H5 g) \<and> fs1 (OutputFilePath cfg) = Some (H5 g') \<and>
            (\<forall>n. n \<noteq> ''cluster_result'' \<longrightarrow> g' n = g n))"
  using assms
  by (auto simp: write_result_def split: option.splits content.splits if_splits)

lemma copy_one_dest_only:
  assumes "copy_one cfg r t opened fs = (Inr c, fs')"
  shows "dest_only cfg fs fs'"
proof (cases c)
  case False
  have "fs' = fs"
    using assms False
    by (auto simp: copy_one_def split: if_splits option.splits content.splits sum.splits)
  then show ?thesis by (simp add: dest_only_def)
next
  case True
  from assms True obtain f d fs1 where
    o: "(if opened then Inr fs else open_destination cfg fs) = Inr fs1"
    and w: "write_result cfg (subregion t) d fs1 = Inr fs'"
    by (auto simp: copy_one_def split: if_splits option.splits content.splits sum.splits)
  note wf = write_result_frame[OF w]
  show ?thesis
  proof (cases opened)
    case True
    with o have "fs1 = fs" by simp
    with wf show ?thesis by (auto simp: dest_only_def)
  next
    case False
    with o have "open_destination cfg fs = Inr fs1" by simp
    note opf = open_destination_frame[OF this]
    from wf opf show ?thesis unfolding dest_only_def by (metis content.inject(2) option.inject)
  qed
qed

lemma marked_without_output_kept:
  assumes "dest_only cfg fs fs'" "marked_without_output cfg ti fs"
  shows "marked_without_output cfg ti fs'"
proof -
  let ?d = "OutputFilePath cfg"
  from assms(1) have other: "\<And>p. p \<noteq> ?d \<Longrightarrow> fs' p = fs p"
    and dest: "fs' ?d = fs ?d \<or>
      (\<exists>g'. fs' ?d = Some (H5 g') \<and>
         g' ''node_result'' = (case fs ?d of Some (H5 g) \<Rightarrow> g ''node_result'' | _ \<Rightarrow> None))"
    by (auto simp: dest_only_def)
  from assms(2) have st: "fs (statusFilePath ti) \<noteq> None"
    and out: "fs (outputFilePath ti) = None \<or>
      (outputFilePath ti = ?d \<and> (\<exists>g. fs ?d = Some (H5 g) \<and> g ''node_result'' = None))"
    by (auto simp: marked_without_output_def)
  have "fs' (statusFilePath ti) \<noteq> None"
  proof (cases "statusFilePath ti = ?d")
    case True
    then show ?thesis using st dest by auto
  next
    case False
    then show ?thesis using st other by simp
  qed
  moreover have "fs' (outputFilePath ti) = None \<or>
      (outputFilePath ti = ?d \<and> (\<exists>g. fs' ?d = Some (H5 g) \<and> g ''node_result'' = None))"
  proof (cases "outputFilePath ti = ?d")
    case True
    from dest show ?thesis
    proof
      assume "fs' ?d = fs ?d"
      then show ?thesis using out True by auto
    next
      assume "\<exists>g'. fs' ?d = Some (H5 g') \<and>
         g' ''node_result'' = (case fs ?d of Some (H5 g) \<Rightarrow> g ''node_result'' | _ \<Rightarrow> None)"
      then obtain g' where g': "fs' ?d = Some (H5 g')"
        "g' ''node_result'' = (case fs ?d of Some (H5 g) \<Rightarrow> g ''node_result'' | _ \<Rightarrow> None)"
        by blast
      have "g' ''node_result'' = None" using g'(2) out True by auto
      then show ?thesis using g'(1) True by simp
    qed
  next
    case False
    then show ?thesis using out other by auto
  qed
  ultimately show ?thesis unfolding marked_without_output_def by metis
qed

lemma copy_one_marked_without_output:
  assumes "marked_without_output cfg ti fs"
  shows "\<exists>e. copy_one cfg roi ti opened fs = (Inl e, fs)"
  using assms
  by (auto simp: marked_without_output_def copy_one_def check_result_def)

lemma copy_loop_marked_without_output:
  assumes "(roi, ti) \<in> set tis" "marked_without_output cfg ti fs"
  shows "\<exists>e fs'. copy_loop cfg tis fin opened fs = (Inl e, fs')"
  using assms
proof (induction tis arbitrary: fin opened fs)
  case Nil
  then show ?case by simp
next
  case (Cons x tis)
  obtain r t where x: "x = (r, t)" by (cases x)
  show ?case
  proof (cases "copy_one cfg r t opened fs")
    case (Pair res fs1)
    show ?thesis
    proof (cases res)
      case (Inl e)
      with Pair x show ?thesis by simp
    next
      case (Inr c)
      with Pair have c1: "copy_one cfg r t opened fs = (Inr c, fs1)" by simp
      have "x \<noteq> (roi, ti)"
        using copy_one_marked_without_output[OF Cons.prems(2), of roi opened] c1 x by auto
      with Cons.prems(1) have "(roi, ti) \<in> set tis" by simp
      moreover have "marked_without_output cfg ti fs1"
        using marked_without_output_kept[OF copy_one_dest_only[OF c1] Cons.prems(2)] .
      ultimately obtain e fs' where
        "copy_loop cfg tis (if c then fin @ [r] else fin) (opened \<or> c) fs1 = (Inl e, fs')"
        using Cons.IH by blast
      with c1 x show ?thesis by simp
    qed
  qed
qed

lemma copy_loop_prefix_error:
  assumes "copy_loop cfg pre fin opened fs = (Inr fin', fs1)"
    and "\<And>op. copy_one cfg roi ti op fs1 = (Inl e, fs1)"
  shows "copy_loop cfg (pre @ (roi, ti) # post) fin opened fs = (Inl e, fs1)"
  using assms(1)
proof (induction pre arbitrary: fin opened fs)
  case Nil
  then show ?case using assms(2) by simp
next
  case (Cons x pre)
  obtain r t where x: "x = (r, t)" by (cases x)
  from Cons.prems x obtain c fs0 where c: "copy_one cfg r t opened fs = (Inr c, fs0)"
    and l: "copy_loop cfg pre (if c then fin @ [r] else fin) (opened \<or> c) fs0 = (Inr fin', fs1)"
    by (auto split: prod.splits sum.splits)
  from Cons.IH[OF l] c x show ?case by simp
qed

lemma copy_one_invalid:
  assumes "fs (statusFilePath ti) \<noteq> None" "fs (outputFilePath ti) = Some (H5 f)"
    and "check_result cfg roi f = Inl e"
  shows "copy_one cfg roi ti opened fs = (Inl e, fs)"
  using assms by (simp add: copy_one_def)

lemma copy_loop_other_paths:
  assumes "copy_loop cfg tis fin opened fs = (Inr fin', fs')" "p \<noteq> OutputFilePath cfg"
  shows "fs' p = fs p"
  using assms(1)
proof (induction tis arbitrary: fin opened fs)
  case Nil
  then show ?case by simp
next
  case (Cons x tis)
  obtain r t where x: "x = (r, t)" by (cases x)
  from Cons.prems x obtain c fs0 where c: "copy_one cfg r t opened fs = (Inr c, fs0)"
    and l: "copy_loop cfg tis (if c then fin @ [r] else fin) (opened \<or> c) fs0 = (Inr fin', fs')"
    by (auto split: prod.splits sum.splits)
  from copy_one_dest_only[OF c] assms(2) have "fs0 p = fs p" by (simp add: dest_only_def)
  with Cons.IH[OF l] show ?case by simp
qed

lemma copyFinishedResults_first_marked:
  assumes "(roi, ti) \<in> set tis"
    and "list_all (\<lambda>x. fs (statusFilePath (snd x)) = None) (takeWhile (\<lambda>x. x \<noteq> (roi, ti)) tis)"
    and "fs (statusFilePath ti) \<noteq> None" "fs (outputFilePath ti) = None"
  shows "copyFinishedResults cfg tis fs = (Inl RuntimeError, fs)"
proof -
  let ?pre = "takeWhile (\<lambda>x. x \<noteq> (roi, ti)) tis"
  let ?rest = "dropWhile (\<lambda>x. x \<noteq> (roi, ti)) tis"
  have ne: "?rest \<noteq> []" using assms(1) by (auto simp: dropWhile_eq_Nil_conv)
  then have "hd ?rest = (roi, ti)" using hd_dropWhile[of "\<lambda>x. x \<noteq> (roi, ti)" tis] by simp
  with ne have "?rest = (roi, ti) # tl ?rest" by (cases ?rest) simp_all
  moreover have "tis = ?pre @ ?rest" by simp
  ultimately obtain post where split: "tis = ?pre @ (roi, ti) # post" by metis
  from assms(2) have "\<forall>x\<in>set ?pre. fs (statusFilePath (snd x)) = None"
    by (simp add: list_all_iff)
  then have pre: "copy_loop cfg ?pre [] False fs = (Inr [], fs)" by (rule copy_loop_idle)
  have one: "\<And>op. copy_one cfg roi ti op fs = (Inl RuntimeError, fs)"
    using assms(3,4) by (simp add: copy_one_def)
  have "copy_loop cfg (?pre @ (roi, ti) # post) [] False fs = (Inl RuntimeError, fs)"
    using pre one by (rule copy_loop_prefix_error)
  then show ?thesis using split by (simp add: copyFinishedResults_def)
qed

lemma check_result_mismatch:
  assumes "f ''node_result'' = Some d" "length (fst roi) = length (snd roi)"
    and "ds_dtype d \<noteq> Input_dtype cfg \<or>
         ds_attrs d ''axistags'' \<noteq> Some (Input_axistags cfg) \<or>
         (length (ds_shape d) = length (fst roi) \<and> ds_shape d \<noteq> map2 (-) (snd roi) (fst roi))"
  shows "\<exists>e. check_result cfg roi f = Inl e"
proof -
  have ext: "np_broadcast (-) (snd roi) (fst roi) = Some (map2 (-) (snd roi) (fst roi))"
    using assms(2) by (simp add: np_broadcast_def)
  have sh: "\<not> list_all (\<lambda>b. b) (map2 (=) xs ys)" if "length xs = length ys" "xs \<noteq> ys"
    for xs ys :: "int list"
    using that by (induction xs ys rule: list_induct2) auto
  show ?thesis
    using assms(1,3) ext sh[of "ds_shape d" "map2 (-) (snd roi) (fst roi)"] assms(2)
    by (auto simp: check_result_def np_broadcast_def split: option.splits)
qed

lemma poll_loop_raise:
  assumes "length tis > 0" "timedelta_seconds (now t - start) < TaskTimeoutSeconds cfg"
    and "copyFinishedResults cfg tis (apply_writes (arrived t) fs) = (Inl e, fs')"
  shows "poll_loop cfg \<lparr>startTime = Some start, stopTime = None\<rparr> (t # rest) tis success fs =
     \<lparr>result = Some (Inl e), active = tis, files = fs', unread = rest\<rparr>"
  using assms by (simp add: poll_step_def seconds_def)

lemma execute_raise:
  assumes "result (snd (execute cfg start pre fs0)) = None"
    and "timedelta_seconds (now t - start) < TaskTimeoutSeconds cfg"
    and "copyFinishedResults cfg (active (snd (execute cfg start pre fs0)))
           (apply_writes (arrived t) (files (snd (execute cfg start pre fs0)))) = (Inl e, fs')"
  shows "snd (execute cfg start (pre @ t # rest) fs0) =
     \<lparr>result = Some (Inl e), active = active (snd (execute cfg start pre fs0)), files = fs',
      unread = rest\<rparr>"
proof -
  from execute_resume[OF assms(1)] obtain s1 where
    len: "length (active (snd (execute cfg start pre fs0))) > 0"
    and go: "execute cfg start (pre @ t # rest) fs0 =
            (fst (execute cfg start pre fs0),
             poll_loop cfg \<lparr>startTime = Some start, stopTime = None\<rparr> (t # rest)
               (active (snd (execute cfg start pre fs0))) s1
               (files (snd (execute cfg start pre fs0))))"
    by blast
  show ?thesis using go poll_loop_raise[OF len assms(2,3)] by simp
qed

subsection \<open>The example run\<close>

lemma prepare_loop_empty:
  "snd (prepare_loop cfg rs tis (Map.empty :: 'v fs)) = Map.empty"
proof (induction rs arbitrary: tis)
  case Nil
  then show ?case by simp
next
  case (Cons x rs)
  obtain i roi where x: "x = (i, roi)" by (cases x)
  have one: "snd (prepare_one cfg i roi tis (Map.empty :: 'v fs)) = Map.empty"
    by (simp add: prepare_one_def Let_def os_remove_if_exists_def split: sum.splits)
  show ?case
  proof (cases "prepare_one cfg i roi tis (Map.empty :: 'v fs)")
    case (Pair r fs')
    with one have "fs' = Map.empty" by simp
    with Pair Cons x show ?thesis by (cases r) simp_all
  qed
qed

lemma execute_start_files:
  "files (snd (execute cfg start [] (Map.empty :: 'v fs))) = Map.empty"
proof -
  have "snd (prepareTaskInfos cfg (Map.empty :: 'v fs)) = Map.empty"
    by (simp add: prepareTaskInfos_def prepare_loop_empty split: sum.splits)
  then show ?thesis
    by (cases "prepareTaskInfos cfg (Map.empty :: 'v fs)")
      (auto simp: execute_def split: sum.splits)
qed

lemma two_items: "length xs = 2 \<Longrightarrow> xs = [xs ! 0, xs ! 1]"
  by (auto simp: numeral_2_eq_2 length_Suc_conv)

lemma scenario_D_start:
  "result (snd (execute scenario_D_config 0 [] (Map.empty :: nat fs))) = None"
  "active (snd (execute scenario_D_config 0 [] (Map.empty :: nat fs))) =
     [example_task0, example_task1]"
  "files (snd (execute scenario_D_config 0 [] (Map.empty :: nat fs))) = Map.empty"
proof -
  show "result (snd (execute scenario_D_config 0 [] (Map.empty :: nat fs))) = None"
    by code_simp
  have "length scenario_D_tasks = 2" by code_simp
  then have "scenario_D_tasks = [scenario_D_tasks ! 0, scenario_D_tasks ! 1]"
    by (rule two_items)
  then show "active (snd (execute scenario_D_config 0 [] (Map.empty :: nat fs))) =
     [example_task0, example_task1]"
    by (simp add: scenario_D_tasks_def example_task0_def example_task1_def)
  show "files (snd (execute scenario_D_config 0 [] (Map.empty :: nat fs))) = Map.empty"
    by (rule execute_start_files)
qed

lemma example_tasks:
  "fst example_task0 = ([0, 0], [2, 2])"
  "fst example_task1 = ([2, 0], [4, 2])"
  "subregion (snd example_task1) = ([2, 0], [4, 2])"
  "statusFilePath (snd example_task0) = ''/scratch/TASK_0 status ((0, 0), (2, 2)).txt''"
  "outputFilePath (snd example_task0) = ''/scratch/TASK_0 output ((0, 0), (2, 2)).h5''"
  "statusFilePath (snd example_task1) = ''/scratch/TASK_1 status ((2, 0), (4, 2)).txt''"
  "outputFilePath (snd example_task1) = ''/scratch/TASK_1 output ((2, 0), (4, 2)).h5''"
  by code_simp+

lemma example_tasks_differ: "example_task0 \<noteq> (fst example_task1, snd example_task1)"
proof
  assume "example_task0 = (fst example_task1, snd example_task1)"
  then have "fst example_task0 = fst example_task1" by simp
  then show False by (simp add: example_tasks)
qed

lemma marker_only_scan:
  "apply_writes (arrived marker_only_tick) Map.empty (statusFilePath (snd example_task1)) \<noteq> None"
  "apply_writes (arrived marker_only_tick) Map.empty (outputFilePath (snd example_task1)) = None"
  "apply_writes (arrived marker_only_tick) Map.empty (statusFilePath (snd example_task0)) = None"
  by (simp_all add: apply_writes_def marker_only_tick_def example_tasks)

lemma mismatch_scan:
  "apply_writes (arrived mismatch_tick) Map.empty (statusFilePath (snd example_task1)) =
     Some (Text ''Yay!'')"
  "apply_writes (arrived mismatch_tick) Map.empty (outputFilePath (snd example_task1)) =
     Some (H5 wrong_dtype_result)"
  by (simp_all add: apply_writes_def mismatch_tick_def example_tasks)

lemma mismatch_first_task:
  "fst (copyFinishedResults scenario_D_config [example_task0]
          (apply_writes (arrived mismatch_tick) Map.empty)) = Inr [([0, 0], [2, 2])]"
  by code_simp

lemma mismatch_check:
  "check_result scenario_D_config (fst example_task1) wrong_dtype_result = Inl AssertionError"
  by (simp add: check_result_def wrong_dtype_result_def example_tasks np_broadcast_def
      scenario_D_config_def)

lemma mismatch_hypotheses:
  fixes fs1 :: "nat fs"
  defines "fs1 \<equiv> snd (copyFinishedResults scenario_D_config [example_task0]
          (apply_writes (arrived mismatch_tick) Map.empty))"
  shows "copyFinishedResults scenario_D_config [example_task0]
           (apply_writes (arrived mismatch_tick) Map.empty) = (Inr [([0, 0], [2, 2])], fs1)"
    and "fs1 (statusFilePath (snd example_task1)) \<noteq> None"
    and "fs1 (outputFilePath (snd example_task1)) = Some (H5 wrong_dtype_result)"
proof -
  show c: "copyFinishedResults scenario_D_config [example_task0]
           (apply_writes (arrived mismatch_tick) Map.empty) = (Inr [([0, 0], [2, 2])], fs1)"
    unfolding fs1_def using mismatch_first_task by (simp add: prod_eq_iff)
  have p: "statusFilePath (snd example_task1) \<noteq> OutputFilePath scenario_D_config"
    "outputFilePath (snd example_task1) \<noteq> OutputFilePath scenario_D_config"
    by (simp_all add: example_tasks scenario_D_config_def)
  from c have l: "copy_loop scenario_D_config [example_task0] [] False
           (apply_writes (arrived mismatch_tick) Map.empty) = (Inr [([0, 0], [2, 2])], fs1)"
    by (simp add: copyFinishedResults_def)
  show "fs1 (statusFilePath (snd example_task1)) \<noteq> None"
    using copy_loop_other_paths[OF l p(1)] mismatch_scan(1) by simp
  show "fs1 (outputFilePath (snd example_task1)) = Some (H5 wrong_dtype_result)"
    using copy_loop_other_paths[OF l p(2)] mismatch_scan(2) by simp
qed

lemma in_time_at_start:
  "timedelta_seconds (now marker_only_tick - 0) < TaskTimeoutSeconds scenario_D_config"
  "timedelta_seconds (now mismatch_tick - 0) < TaskTimeoutSeconds scenario_D_config"
  by (simp_all add: timedelta_seconds_def marker_only_tick_def mismatch_tick_def
      scenario_D_config_def)

subsection \<open>A status file without an output file\<close>

text \<open>
  Claim C5. If a run is still polling and, when its next pass (in time) looks for results,
  a task of the dictionary has its status file and no output file, then
  \<^verbatim>\<open>_copyFinishedResults\<close> raises, the task is not skipped, and \<^verbatim>\<open>execute\<close> ends with that
  exception instead of a result: the run fails. The exception is the RuntimeError of the
  missing output when no item before the task has a status file; an item before it may
  raise first.
\<close>

theorem missing_output_aborts_run:
  assumes "result (snd (execute cfg start pre fs0)) = None"
    and "(roi, ti) \<in> set (active (snd (execute cfg start pre fs0)))"
    and "timedelta_seconds (now t - start) < TaskTimeoutSeconds cfg"
    and "scan = apply_writes (arrived t) (files (snd (execute cfg start pre fs0)))"
    and "scan (statusFilePath ti) \<noteq> None" "scan (outputFilePath ti) = None"
  shows "\<exists>e fs'. copyFinishedResults cfg (active (snd (execute cfg start pre fs0))) scan =
             (Inl e, fs') \<and>
           snd (execute cfg start (pre @ t # rest) fs0) =
             \<lparr>result = Some (Inl e), active = active (snd (execute cfg start pre fs0)),
              files = fs', unread = rest\<rparr> \<and>
           (list_all (\<lambda>x. scan (statusFilePath (snd x)) = None)
              (takeWhile (\<lambda>x. x \<noteq> (roi, ti)) (active (snd (execute cfg start pre fs0))))
            \<longrightarrow> e = RuntimeError \<and> fs' = scan)"
proof -
  let ?tis = "active (snd (execute cfg start pre fs0))"
  have "marked_without_output cfg ti scan"
    using assms(5,6) by (simp add: marked_without_output_def)
  then obtain e fs' where c: "copyFinishedResults cfg ?tis scan = (Inl e, fs')"
    using copy_loop_marked_without_output[OF assms(2)] unfolding copyFinishedResults_def
    by blast
  have "snd (execute cfg start (pre @ t # rest) fs0) =
      \<lparr>result = Some (Inl e), active = ?tis, files = fs', unread = rest\<rparr>"
    using execute_raise[OF assms(1,3)] c assms(4) by simp
  moreover have "e = RuntimeError \<and> fs' = scan"
    if "list_all (\<lambda>x. scan (statusFilePath (snd x)) = None)
          (takeWhile (\<lambda>x. x \<noteq> (roi, ti)) ?tis)"
    using copyFinishedResults_first_marked[OF assms(2) that assms(5,6), of cfg] c by simp
  ultimately show ?thesis using c by blast
qed

theorem missing_output_aborts_run_witness:
  "result (snd (execute scenario_D_config 0 [] (Map.empty :: nat fs))) = None \<and>
   (fst example_task1, snd example_task1)
     \<in> set (active (snd (execute scenario_D_config 0 [] (Map.empty :: nat fs)))) \<and>
   timedelta_seconds (now marker_only_tick - 0) < TaskTimeoutSeconds scenario_D_config \<and>
   apply_writes (arrived marker_only_tick) (files (snd (execute scenario_D_config 0 [] (Map.empty :: nat fs))))
     (statusFilePath (snd example_task1)) \<noteq> None \<and>
   apply_writes (arrived marker_only_tick) (files (snd (execute scenario_D_config 0 [] (Map.empty :: nat fs))))
     (outputFilePath (snd example_task1)) = None \<and>
   result (snd (execute scenario_D_config 0 ([] @ marker_only_tick # []) Map.empty)) =
     Some (Inl RuntimeError)"
proof -
  let ?st = "snd (execute scenario_D_config 0 [] (Map.empty :: nat fs))"
  let ?scan = "apply_writes (arrived marker_only_tick) (files ?st)"
  note a = scenario_D_start(1)
  have b: "(fst example_task1, snd example_task1) \<in> set (active ?st)"
    by (simp add: scenario_D_start(2))
  note c = in_time_at_start(1)
  have d: "?scan (statusFilePath (snd example_task1)) \<noteq> None"
    and e: "?scan (outputFilePath (snd example_task1)) = None"
    by (simp_all add: scenario_D_start(3) marker_only_scan)
  have first: "list_all (\<lambda>x. ?scan (statusFilePath (snd x)) = None)
      (takeWhile (\<lambda>x. x \<noteq> (fst example_task1, snd example_task1)) (active ?st))"
    using example_tasks_differ by (simp add: scenario_D_start(2,3) marker_only_scan(3))
  from missing_output_aborts_run[OF a b c refl d e, of "[]"] first
  have "result (snd (execute scenario_D_config 0 ([] @ marker_only_tick # []) Map.empty)) =
     Some (Inl RuntimeError)"
    by auto
  with a b c d e show ?thesis by blast
qed

subsection \<open>A result that fails a check\<close>

text \<open>
  A result that fails a check of the code ends the pass before anything of it is written:
  if a run is still polling and, in its next pass (in time), the aggregation has dealt
  with the items before a task, the task's status file is there and its output container
  fails a check, then \<^verbatim>\<open>_copyFinishedResults\<close> raises the exception of the check, the
  files are exactly as the items before the task left them, and \<^verbatim>\<open>execute\<close> ends with
  the exception. A missing dataset, another element type, other or missing axis tags, and
  another shape of the same length as the region fail a check (\<open>check_result_mismatch\<close>).
\<close>

lemma failed_check_aborts_before_write:
  assumes "result (snd (execute cfg start pre fs0)) = None"
    and "active (snd (execute cfg start pre fs0)) = items @ (roi, ti) # post"
    and "timedelta_seconds (now t - start) < TaskTimeoutSeconds cfg"
    and "scan = apply_writes (arrived t) (files (snd (execute cfg start pre fs0)))"
    and "copyFinishedResults cfg items scan = (Inr fin, fs1)"
    and "fs1 (statusFilePath ti) \<noteq> None" "fs1 (outputFilePath ti) = Some (H5 f)"
    and "check_result cfg roi f = Inl e"
  shows "copyFinishedResults cfg (items @ (roi, ti) # post) scan = (Inl e, fs1) \<and>
         result (snd (execute cfg start (pre @ t # rest) fs0)) = Some (Inl e) \<and>
         files (snd (execute cfg start (pre @ t # rest) fs0)) = fs1"
proof -
  have one: "\<And>op. copy_one cfg roi ti op fs1 = (Inl e, fs1)"
    using assms(6-8) by (rule copy_one_invalid)
  have c: "copyFinishedResults cfg (items @ (roi, ti) # post) scan = (Inl e, fs1)"
    using assms(5) one unfolding copyFinishedResults_def by (rule copy_loop_prefix_error)
  with execute_raise[OF assms(1,3), of e fs1 rest] assms(2,4) show ?thesis by simp
qed

lemma short_shape_check:
  "map_option ds_shape (short_shape_result ''node_result'') = Some [2]"
  "np_broadcast (-) [4, 2] [2, 0] = Some [2, 2]"
  "(case check_result scenario_D_config ([2, 0], [4, 2]) short_shape_result of
      Inl e \<Rightarrow> False | Inr d \<Rightarrow> True)"
  by (simp_all add: short_shape_result_def check_result_def np_broadcast_def
      scenario_D_config_def)

text \<open>
  Claim C6 asks that a result whose shape differs from the extent of its region is refused
  before it is written. The check of the shape does not do that for every shape:
  \<^verbatim>\<open>numpy.all(f['node_result'].shape == numpy.subtract(roi[1], roi[0]))\<close> compares a
  tuple with an array, and numpy stretches a vector of length one to the length of the
  other. In the run below task 0 delivers a good result and task 1, whose region has the
  extent (2, 2), a result of shape (2,) with the expected element type and axis tags: the
  result passes every check, \<^verbatim>\<open>_copyFinishedResults\<close> reports the region of task 1 as
  finished, and \<^verbatim>\<open>execute\<close> returns success with no task left and the dataset
  \<^verbatim>\<open>cluster_result\<close> in the destination.
\<close>

theorem broadcast_shape_accepted:
  "map_option ds_shape (short_shape_result ''node_result'') = Some [2] \<and>
   np_broadcast (-) [4, 2] [2, 0] = Some [2, 2] \<and>
   (case check_result scenario_D_config ([2, 0], [4, 2]) short_shape_result of
      Inl e \<Rightarrow> False | Inr d \<Rightarrow> True) \<and>
   fst (copyFinishedResults scenario_D_config [example_task1]
          (apply_writes (arrived broadcast_tick) Map.empty)) = Inr [([2, 0], [4, 2])] \<and>
   result (snd (execute scenario_D_config 0 [broadcast_tick] Map.empty)) = Some (Inr True) \<and>
   map fst (active (snd (execute scenario_D_config 0 [broadcast_tick] Map.empty))) = [] \<and>
   (case files (snd (execute scenario_D_config 0 [broadcast_tick] Map.empty))
           ''/scratch/total.h5'' of
      Some (H5 g) \<Rightarrow> (case g ''cluster_result'' of None \<Rightarrow> False | Some d \<Rightarrow> True)
    | _ \<Rightarrow> False)"
proof -
  have "fst (copyFinishedResults scenario_D_config [example_task1]
          (apply_writes (arrived broadcast_tick) Map.empty)) = Inr [([2, 0], [4, 2])]"
    by code_simp
  moreover have
    "result (snd (execute scenario_D_config 0 [broadcast_tick] Map.empty)) = Some (Inr True)"
    by code_simp
  moreover have
    "map fst (active (snd (execute scenario_D_config 0 [broadcast_tick] Map.empty))) = []"
    by code_simp
  moreover have "(case files (snd (execute scenario_D_config 0 [broadcast_tick] Map.empty))
           ''/scratch/total.h5'' of
      Some (H5 g) \<Rightarrow> (case g ''cluster_result'' of None \<Rightarrow> False | Some d \<Rightarrow> True)
    | _ \<Rightarrow> False)"
    by code_simp
  ultimately show ?thesis using short_shape_check by blast
qed

text \<open>
  Claim C7 does not hold: a result that fails a check makes \<^verbatim>\<open>_copyFinishedResults\<close> raise,
  and \<^verbatim>\<open>execute\<close> does not catch the exception. In the run below task 0 has delivered a
  good result and task 1 one of the wrong element type; the run ends with AssertionError
  in its first pass, both tasks still in the dictionary, and the next observation unread.
\<close>

theorem validation_counterexample:
  "result (snd (execute scenario_D_config 0 [mismatch_tick, second_check] Map.empty)) =
     Some (Inl AssertionError) \<and>
   map fst (active (snd (execute scenario_D_config 0 [mismatch_tick, second_check] Map.empty))) =
     [([0, 0], [2, 2]), ([2, 0], [4, 2])] \<and>
   map now (unread (snd (execute scenario_D_config 0 [mismatch_tick, second_check] Map.empty))) =
     [15000000]"
  by code_simp

text \<open>
  Claim C7, amended. If a run is still polling and, in its next pass (in time), the
  aggregation has dealt with the items before a task, the task's status file is there and
  its output container fails a check, the exception of the check ends the polling:
  \<^verbatim>\<open>execute\<close> raises it, the task and all others stay in the dictionary (none is marked or
  removed), and no later observation is read. \<^verbatim>\<open>_checkForFailures\<close> names no task,
  whatever the dictionary.
\<close>

theorem validation_failure_ends_polling:
  assumes "result (snd (execute cfg start pre fs0)) = None"
    and "active (snd (execute cfg start pre fs0)) = items @ (roi, ti) # post"
    and "timedelta_seconds (now t - start) < TaskTimeoutSeconds cfg"
    and "scan = apply_writes (arrived t) (files (snd (execute cfg start pre fs0)))"
    and "copyFinishedResults cfg items scan = (Inr fin, fs1)"
    and "fs1 (statusFilePath ti) \<noteq> None" "fs1 (outputFilePath ti) = Some (H5 f)"
    and "check_result cfg roi f = Inl e"
  shows "result (snd (execute cfg start (pre @ t # rest) fs0)) = Some (Inl e) \<and>
         active (snd (execute cfg start (pre @ t # rest) fs0)) = items @ (roi, ti) # post \<and>
         unread (snd (execute cfg start (pre @ t # rest) fs0)) = rest \<and>
         checkForFailures tis = []"
proof -
  have one: "\<And>op. copy_one cfg roi ti op fs1 = (Inl e, fs1)"
    using assms(6-8) by (rule copy_one_invalid)
  have c: "copyFinishedResults cfg (items @ (roi, ti) # post) scan = (Inl e, fs1)"
    using assms(5) one unfolding copyFinishedResults_def by (rule copy_loop_prefix_error)
  with execute_raise[OF assms(1,3), of e fs1 rest] assms(2,4) show ?thesis
    by (simp add: checkForFailures_def)
qed

theorem validation_failure_ends_polling_witness:
  "result (snd (execute scenario_D_config 0 [] (Map.empty :: nat fs))) = None \<and>
   active (snd (execute scenario_D_config 0 [] (Map.empty :: nat fs))) =
     [example_task0] @ (fst example_task1, snd example_task1) # [] \<and>
   timedelta_seconds (now mismatch_tick - 0) < TaskTimeoutSeconds scenario_D_config \<and>
   copyFinishedResults scenario_D_config [example_task0]
      (apply_writes (arrived mismatch_tick) Map.empty) =
     (Inr [([0, 0], [2, 2])],
      snd (copyFinishedResults scenario_D_config [example_task0]
             (apply_writes (arrived mismatch_tick) Map.empty))) \<and>
   snd (copyFinishedResults scenario_D_config [example_task0]
          (apply_writes (arrived mismatch_tick) Map.empty))
     (statusFilePath (snd example_task1)) \<noteq> None \<and>
   snd (copyFinishedResults scenario_D_config [example_task0]
          (apply_writes (arrived mismatch_tick) Map.empty))
     (outputFilePath (snd example_task1)) = Some (H5 wrong_dtype_result) \<and>
   check_result scenario_D_config (fst example_task1) wrong_dtype_result = Inl AssertionError \<and>
   result (snd (execute scenario_D_config 0 ([] @ mismatch_tick # [second_check]) Map.empty)) =
     Some (Inl AssertionError) \<and>
   active (snd (execute scenario_D_config 0 ([] @ mismatch_tick # [second_check]) Map.empty)) =
     [example_task0] @ (fst example_task1, snd example_task1) # [] \<and>
   unread (snd (execute scenario_D_config 0 ([] @ mismatch_tick # [second_check]) Map.empty)) =
     [second_check] \<and>
   checkForFailures ([example_task0] @ (fst example_task1, snd example_task1) # []) = []"
proof -
  note h = mismatch_hypotheses
  note a = scenario_D_start(1)
  have b: "active (snd (execute scenario_D_config 0 [] (Map.empty :: nat fs))) =
     [example_task0] @ (fst example_task1, snd example_task1) # []"
    by (simp add: scenario_D_start(2))
  note c = in_time_at_start(2)
  have d: "apply_writes (arrived mismatch_tick) Map.empty =
      apply_writes (arrived mismatch_tick)
        (files (snd (execute scenario_D_config 0 [] (Map.empty :: nat fs))))"
    by (simp add: scenario_D_start(3))
  note t = validation_failure_ends_polling[OF a b c d h(1) h(2) h(3) mismatch_check,
      of "[second_check]" "[example_task0] @ (fst example_task1, snd example_task1) # []"]
  from a b c h mismatch_check t show ?thesis by blast
qed

end
